theory Spec2Isabelle
  imports Main "HOL-Library.Log_Nat" "HOL-Library.Multiset"
begin

section \<open>Store.generateSlug (src/src/models/Store.js)\<close>

text \<open>
  A JavaScript string is modelled as a \<^typ>\<open>string\<close>: a list of 8-bit characters, read as
  the code units U+0000 to U+00FF. The model therefore covers the names whose code
  units all lie in that range.

  \<^verbatim>\<open>
  Store.generateSlug = async function(name) {
    const baseSlug = name
      .toLowerCase()
      .replace(/[^a-z0-9 -]/g, '')
      .replace(/\s+/g, '-')
      .replace(/-+/g, '-')
      .trim();
    let slug = baseSlug;
    let counter = 1;
    while (await this.findOne({ where: { slug } })) {
      slug = `${baseSlug}-${counter}`;
      counter++;
    }
    return slug;
  };
  \<close>
\<close>

definition toLowerCase_char :: "char \<Rightarrow> char" where
  \<comment> \<open>\<open>A\<close>..\<open>Z\<close> and the Latin-1 capitals U+00C0..U+00DE (but not the sign U+00D7) move up by 32\<close>
  "toLowerCase_char c =
     (let n = (of_char c :: nat) in
      if (65 \<le> n \<and> n \<le> 90) \<or> (192 \<le> n \<and> n \<le> 222 \<and> n \<noteq> 215)
      then char_of (n + 32) else c)"

definition toLowerCase :: "string \<Rightarrow> string" where
  "toLowerCase s = map toLowerCase_char s"

definition slug_char :: "char \<Rightarrow> bool" where
  \<comment> \<open>the class \<open>[a-z0-9 -]\<close>\<close>
  "slug_char c =
     (let n = (of_char c :: nat) in
      (97 \<le> n \<and> n \<le> 122) \<or> (48 \<le> n \<and> n \<le> 57) \<or> n = 32 \<or> n = 45)"

definition white_space :: "char \<Rightarrow> bool" where
  \<comment> \<open>the class \<open>\s\<close> below U+0100: tab, line feed, vertical tab, form feed, carriage
     return, space, no-break space\<close>
  "white_space c = (of_char c \<in> {9, 10, 11, 12, 13, 32, 160 :: nat})"

definition hyphen :: "char \<Rightarrow> bool" where
  "hyphen c = (c = CHR ''-'')"

text \<open>\<open>s.replace(/p+/g, '-')\<close>: every maximal run of characters of the class \<open>p\<close> becomes
  one hyphen.\<close>

function replace_runs :: "(char \<Rightarrow> bool) \<Rightarrow> string \<Rightarrow> string" where
  "replace_runs p [] = []"
| "replace_runs p (c # cs) =
     (if p c then CHR ''-'' # replace_runs p (dropWhile p cs) else c # replace_runs p cs)"
  by pat_completeness auto
termination
  by (relation "measure (\<lambda>(p, cs). length cs)")
     (auto simp: length_dropWhile_le less_Suc_eq_le)

definition trim :: "string \<Rightarrow> string" where
  \<comment> \<open>\<open>String.prototype.trim\<close> removes white space from both ends\<close>
  "trim s = rev (dropWhile white_space (rev (dropWhile white_space s)))"

definition baseSlug :: "string \<Rightarrow> string" where
  "baseSlug name =
     trim (replace_runs hyphen (replace_runs white_space (filter slug_char (toLowerCase name))))"

fun decimal :: "nat \<Rightarrow> string" where
  "decimal n =
     (if n < 10 then [char_of (48 + n)]
      else decimal (n div 10) @ [char_of (48 + n mod 10)])"

declare decimal.simps [simp del]

definition candidate :: "string \<Rightarrow> nat \<Rightarrow> string" where
  \<comment> \<open>the template literal \<open>`${baseSlug}-${counter}`\<close>\<close>
  "candidate base counter = base @ ''-'' @ decimal counter"

text \<open>
  The loop asks the store table once per probe; \<open>findOne slug\<close> says whether a store with
  that slug exists. The loop need not end (an oracle can call every candidate taken), so
  it is a partial function: \<open>None\<close> is a run that never returns. The counter is a natural
  number; the JavaScript number is exact for every counter below \<open>2^53\<close>.
\<close>

partial_function (option) slug_loop ::
  "(string \<Rightarrow> bool) \<Rightarrow> string \<Rightarrow> string \<Rightarrow> nat \<Rightarrow> string option" where
  "slug_loop findOne base slug counter =
     (if findOne slug then slug_loop findOne base (candidate base counter) (counter + 1)
      else Some slug)"

definition generateSlug :: "(string \<Rightarrow> bool) \<Rightarrow> string \<Rightarrow> string option" where
  "generateSlug findOne name = (let base = baseSlug name in slug_loop findOne base base 1)"

text \<open>Reading a decimal numeral back, for the proof that distinct counters give distinct
  candidates.\<close>

definition undecimal :: "string \<Rightarrow> nat" where
  "undecimal s = foldl (\<lambda>a c. 10 * a + (of_char c - 48)) 0 s"

section \<open>Numbers\<close>

text \<open>
  A JavaScript number is an IEEE 754 binary64 value. The values met here are finite, so a
  number is modelled by the rational it denotes, and an arithmetic operation by the exact
  operation followed by rounding to the nearest binary64 value, ties to the even
  significand. Sums of ratings are integers far below \<open>2^53\<close> and are exact; only the
  division rounds. The quotients of two such integers lie in the normal range, so neither
  overflow nor subnormal numbers are modelled.
\<close>

definition round_ties_even :: "rat \<Rightarrow> int" where
  "round_ties_even x =
     (let n = \<lfloor>x\<rfloor>; d = x - of_int n in
      if d < 1 / 2 then n else if 1 / 2 < d then n + 1 else if even n then n else n + 1)"

definition binade :: "rat \<Rightarrow> int" where
  \<comment> \<open>for \<open>0 < x\<close>, the exponent \<open>e\<close> with \<open>2^e \<le> x < 2^(e+1)\<close>\<close>
  "binade x = (if 1 \<le> x then bitlen \<lfloor>x\<rfloor> - 1 else - bitlen (\<lceil>1 / x\<rceil> - 1))"

definition fl64 :: "rat \<Rightarrow> rat" where
  \<comment> \<open>the binary64 value nearest to \<open>x\<close>: a 53-bit significand times a power of two\<close>
  "fl64 x =
     (if x = 0 then 0
      else let ulp = 2 powi (binade \<bar>x\<bar> - 52)
           in sgn x * of_int (round_ties_even (\<bar>x\<bar> / ulp)) * ulp)"

definition js_div :: "rat \<Rightarrow> rat \<Rightarrow> rat" where
  \<comment> \<open>\<open>a / b\<close> for a non-zero \<open>b\<close>\<close>
  "js_div a b = fl64 (a / b)"

text \<open>
  \<open>x.toFixed(f)\<close> (ECMAScript, Number.prototype.toFixed, for \<open>|x| < 10^21\<close>): the digits of
  the integer \<open>n\<close> for which \<open>n / 10^f - x\<close> is as close to zero as possible, the larger \<open>n\<close>
  when there are two; a negative \<open>x\<close> is formatted as \<open>-x\<close> with a minus sign. The string is
  modelled by the decimal number it spells.
\<close>

definition toFixed :: "rat \<Rightarrow> nat \<Rightarrow> rat" where
  "toFixed x f =
     (if x < 0 then - (of_int \<lfloor>- x * 10 ^ f + 1 / 2\<rfloor> / 10 ^ f)
      else of_int \<lfloor>x * 10 ^ f + 1 / 2\<rfloor> / 10 ^ f)"

definition parseFloat :: "rat \<Rightarrow> rat" where
  \<comment> \<open>the number nearest to the decimal the string spells\<close>
  "parseFloat decimal_value = fl64 decimal_value"

section \<open>The Sequelize models (src/src/models/Rating.js, src/src/models/Store.js)\<close>

text \<open>
  A table is the list of its rows and a model instance is a row value. Primary keys,
  user ids and timestamps are natural numbers. The fields a review has in both of the
  repository's persistence layers are declared once and extended by each layer.
\<close>

datatype error =
    ValidationError string
  | UniqueConstraintError string
  | StorageError string

datatype flag_reason = spam | inappropriate | fake | offensive | other

record reply_value =
  "text" :: string
  date :: "nat option"
  author_id :: "nat option"

record row =
  ident :: nat

record review_fields = row +
  rating :: int
  title :: "string option"
  comment :: "string option"
  images :: "string list"
  reply :: "reply_value option"

record rating_row = review_fields +
  user_id :: nat
  store_id :: nat
  helpful_votes :: int
  is_verified_purchase :: bool
  is_flagged :: bool
  flag_reason :: "flag_reason option"
  is_approved :: bool

text \<open>Of a store, the fields the review operations read or write; the validators of the
  other columns depend on those columns alone.\<close>

record store_row = row +
  name :: string
  slug :: "string option"
  owner_id :: nat
  average_rating :: rat
  total_reviews :: int

record database =
  stores :: "store_row list"
  ratings :: "rating_row list"

subsection \<open>Validators\<close>

definition startsWith :: "string \<Rightarrow> string \<Rightarrow> bool" where
  "startsWith s p = (take (length p) s = p)"

definition isValidImages :: "string list \<Rightarrow> string list" where
  "isValidImages value =
     (if 5 < length value then [''Maximum 5 images allowed per review'']
      else if list_ex (\<lambda>image. \<not> startsWith image ''http'') value
      then [''All images must be valid URLs'']
      else [])"

definition isValidReply :: "reply_value option \<Rightarrow> string list" where
  "isValidReply value =
     (case value of
        None \<Rightarrow> []
      | Some v \<Rightarrow>
          if text v = [] then [''Reply must have a text field'']
          else if 1000 < length (text v) then [''Reply text cannot exceed 1000 characters'']
          else if date v = None then [''Reply must have a date field'']
          else [])"

definition isValidFlagReason :: "bool \<Rightarrow> flag_reason option \<Rightarrow> string list" where
  "isValidFlagReason this_is_flagged value =
     (if this_is_flagged \<and> value = None
      then [''Flag reason is required when review is flagged'']
      else [])"

definition max_len :: "nat \<Rightarrow> string \<Rightarrow> string option \<Rightarrow> string list" where
  \<comment> \<open>the validator \<open>len: [0, n]\<close> of a column that may be null\<close>
  "max_len n msg value =
     (case value of None \<Rightarrow> [] | Some s \<Rightarrow> if n < length s then [msg] else [])"

text \<open>The messages of the validators that fail, in the order of the columns. \<open>save()\<close> and
  \<open>create()\<close> are taken to run every validator the model declares.\<close>

definition Rating_validate :: "rating_row \<Rightarrow> string list" where
  "Rating_validate r =
     (if rating r < 1 \<or> 5 < rating r then [''Rating must be between 1 and 5''] else []) @
     max_len 200 ''Title cannot exceed 200 characters'' (title r) @
     max_len 2000 ''Comment cannot exceed 2000 characters'' (comment r) @
     isValidImages (images r) @
     (if helpful_votes r < 0 then [''Helpful votes cannot be negative''] else []) @
     isValidReply (reply r) @
     isValidFlagReason (is_flagged r) (flag_reason r)"

definition slug_pattern :: "string \<Rightarrow> bool" where
  \<comment> \<open>\<open>/^[a-z0-9-]+$/\<close>\<close>
  "slug_pattern s = (s \<noteq> [] \<and> list_all (\<lambda>c. slug_char c \<and> c \<noteq> CHR '' '') s)"

definition Store_validate :: "store_row \<Rightarrow> string list" where
  "Store_validate s =
     (if name s = [] then [''Store name cannot be empty''] else []) @
     (if length (name s) < 2 \<or> 200 < length (name s)
      then [''Store name must be between 2 and 200 characters''] else []) @
     (if average_rating s < 0 then [''Rating cannot be negative''] else []) @
     (if 5 < average_rating s then [''Rating cannot exceed 5''] else []) @
     (if total_reviews s < 0 then [''Total reviews cannot be negative''] else []) @
     (case slug s of
        None \<Rightarrow> []
      | Some g \<Rightarrow>
          if slug_pattern g then []
          else [''Slug can only contain lowercase letters, numbers, and hyphens''])"

subsection \<open>Store.prototype.updateRatingStats\<close>

text \<open>
  An operation on the tables returns its result, an error or a value, together with the
  tables as it leaves them: a rejected promise does not undo the writes made before it.

  \<^verbatim>\<open>
  Store.prototype.updateRatingStats = async function() {
    const ratings = await this.getRatings();
    if (ratings.length > 0) {
      const sum = ratings.reduce((acc, rating) => acc + rating.rating, 0);
      this.average_rating = (sum / ratings.length).toFixed(2);
      this.total_reviews = ratings.length;
    } else {
      this.average_rating = 0.00;
      this.total_reviews = 0;
    }
    await this.save();
  };
  \<close>
  \<open>getRatings\<close> is the accessor of the association
  \<open>Store.hasMany(models.Rating, {foreignKey: 'store_id', as: 'ratings'})\<close>: the rows of the
  ratings table whose \<open>store_id\<close> is the store's id.
\<close>

definition getRatings :: "database \<Rightarrow> store_row \<Rightarrow> rating_row list" where
  "getRatings db this = filter (\<lambda>r. store_id r = ident this) (ratings db)"

definition getStore :: "database \<Rightarrow> rating_row \<Rightarrow> store_row option" where
  "getStore db this = find (\<lambda>s. ident s = store_id this) (stores db)"

definition Store_save :: "database \<Rightarrow> store_row \<Rightarrow> (error + unit) \<times> database" where
  "Store_save db this =
     (case Store_validate this of
        msg # _ \<Rightarrow> (Inl (ValidationError msg), db)
      | [] \<Rightarrow>
          (Inr (), db\<lparr>stores := map (\<lambda>s. if ident s = ident this then this else s) (stores db)\<rparr>))"

definition rating_stats :: "int list \<Rightarrow> rat \<times> int" where
  \<comment> \<open>the two values \<open>updateRatingStats\<close> assigns, from the ratings it fetched\<close>
  "rating_stats rs =
     (if 0 < length rs
      then let sum = foldl (\<lambda>acc r. acc + r) 0 rs
           in (toFixed (js_div (of_int sum) (of_nat (length rs))) 2, int (length rs))
      else (0, 0))"

definition updateRatingStats :: "database \<Rightarrow> store_row \<Rightarrow> (error + unit) \<times> database" where
  "updateRatingStats db this =
     (let (a, n) = rating_stats (map rating (getRatings db this))
      in Store_save db (this\<lparr>average_rating := a, total_reviews := n\<rparr>))"

subsection \<open>The hooks of Rating\<close>

definition refresh_store :: "database \<Rightarrow> rating_row \<Rightarrow> (error + unit) \<times> database" where
  \<comment> \<open>\<open>const store = await rating.getStore(); if (store) { await store.updateRatingStats(); }\<close>\<close>
  "refresh_store db r =
     (case getStore db r of None \<Rightarrow> (Inr (), db) | Some st \<Rightarrow> updateRatingStats db st)"

definition afterCreate :: "database \<Rightarrow> rating_row \<Rightarrow> (error + unit) \<times> database" where
  "afterCreate db r = refresh_store db r"

definition afterUpdate :: "database \<Rightarrow> rating_row \<Rightarrow> rating_row \<Rightarrow> (error + unit) \<times> database" where
  \<comment> \<open>\<open>previous\<close> holds the values the instance was loaded with; \<open>changed\<close> compares with them\<close>
  "afterUpdate db previous r =
     (if rating r \<noteq> rating previous \<or> is_approved r \<noteq> is_approved previous
      then refresh_store db r
      else (Inr (), db))"

definition afterDestroy :: "database \<Rightarrow> rating_row \<Rightarrow> (error + unit) \<times> database" where
  "afterDestroy db r = refresh_store db r"

subsection \<open>Saving, creating and destroying a rating\<close>

definition returning :: "'a \<Rightarrow> (error + unit) \<times> database \<Rightarrow> (error + 'a) \<times> database" where
  \<comment> \<open>the awaited operation has ended; \<open>return v\<close>\<close>
  "returning v saved = (case saved of (Inl e, db) \<Rightarrow> (Inl e, db) | (Inr _, db) \<Rightarrow> (Inr v, db))"

definition unique_user_store_rating :: "rating_row list \<Rightarrow> rating_row \<Rightarrow> bool" where
  \<comment> \<open>the unique index on \<open>(user_id, store_id)\<close>: no other row holds the pair of \<open>r\<close>\<close>
  "unique_user_store_rating rows r =
     (\<not> list_ex (\<lambda>x. ident x \<noteq> ident r \<and> user_id x = user_id r \<and> store_id x = store_id r) rows)"

definition Rating_save ::
  "database \<Rightarrow> rating_row \<Rightarrow> rating_row \<Rightarrow> (error + unit) \<times> database" where
  "Rating_save db previous this =
     (case Rating_validate this of
        msg # _ \<Rightarrow> (Inl (ValidationError msg), db)
      | [] \<Rightarrow>
          if \<not> unique_user_store_rating (ratings db) this
          then (Inl (UniqueConstraintError ''unique_user_store_rating''), db)
          else afterUpdate
                 (db\<lparr>ratings := map (\<lambda>x. if ident x = ident this then this else x) (ratings db)\<rparr>)
                 previous this)"

text \<open>The values given to \<open>Rating.create\<close>: the three columns that have no default, and for
  each other column the value given, if any.\<close>

record rating_values =
  given_user_id :: nat
  given_store_id :: nat
  given_rating :: int
  given_title :: "string option"
  given_comment :: "string option"
  given_images :: "string list option"
  given_helpful_votes :: "int option"
  given_reply :: "reply_value option"
  given_is_verified_purchase :: "bool option"
  given_is_flagged :: "bool option"
  given_flag_reason :: "flag_reason option"
  given_is_approved :: "bool option"

definition new_ident :: "nat list \<Rightarrow> nat" where
  \<comment> \<open>a key no row has yet (the source draws a UUID)\<close>
  "new_ident used = Suc (foldl max 0 used)"

definition default_to :: "'a \<Rightarrow> 'a option \<Rightarrow> 'a" where
  "default_to d given = (case given of None \<Rightarrow> d | Some v \<Rightarrow> v)"

definition Rating_build :: "database \<Rightarrow> rating_values \<Rightarrow> rating_row" where
  \<comment> \<open>the \<open>defaultValue\<close> of a column stands in for a value that is not given\<close>
  "Rating_build db v =
     \<lparr>ident = new_ident (map ident (ratings db)),
      rating = given_rating v,
      title = given_title v,
      comment = given_comment v,
      images = default_to [] (given_images v),
      reply = given_reply v,
      user_id = given_user_id v,
      store_id = given_store_id v,
      helpful_votes = default_to 0 (given_helpful_votes v),
      is_verified_purchase = default_to False (given_is_verified_purchase v),
      is_flagged = default_to False (given_is_flagged v),
      flag_reason = given_flag_reason v,
      is_approved = default_to True (given_is_approved v)\<rparr>"

definition Rating_create ::
  "database \<Rightarrow> rating_values \<Rightarrow> (error + rating_row) \<times> database" where
  "Rating_create db v =
     (let this = Rating_build db v in
      case Rating_validate this of
        msg # _ \<Rightarrow> (Inl (ValidationError msg), db)
      | [] \<Rightarrow>
          if \<not> unique_user_store_rating (ratings db) this
          then (Inl (UniqueConstraintError ''unique_user_store_rating''), db)
          else returning this (afterCreate (db\<lparr>ratings := ratings db @ [this]\<rparr>) this))"

definition Rating_destroy :: "database \<Rightarrow> rating_row \<Rightarrow> (error + unit) \<times> database" where
  "Rating_destroy db this =
     afterDestroy (db\<lparr>ratings := filter (\<lambda>x. ident x \<noteq> ident this) (ratings db)\<rparr>) this"

subsection \<open>The instance methods of Rating\<close>

definition flag ::
  "database \<Rightarrow> rating_row \<Rightarrow> flag_reason option \<Rightarrow> (error + bool) \<times> database" where
  "flag db this reason =
     returning True
       (Rating_save db this (this\<lparr>is_flagged := True, flag_reason := reason, is_approved := False\<rparr>))"

definition unflag :: "database \<Rightarrow> rating_row \<Rightarrow> (error + bool) \<times> database" where
  "unflag db this =
     returning True
       (Rating_save db this (this\<lparr>is_flagged := False, flag_reason := None, is_approved := True\<rparr>))"

definition approve :: "database \<Rightarrow> rating_row \<Rightarrow> (error + bool) \<times> database" where
  "approve db this = returning True (Rating_save db this (this\<lparr>is_approved := True\<rparr>))"

definition reject :: "database \<Rightarrow> rating_row \<Rightarrow> (error + bool) \<times> database" where
  "reject db this = returning True (Rating_save db this (this\<lparr>is_approved := False\<rparr>))"


section \<open>The review controller (src/src/controllers/reviewController.js)\<close>


record review_doc = review_fields +
  user :: nat
  store :: nat
  helpfulVotes :: int

record store_doc = row +
  owner :: nat
  averageRating :: rat
  totalReviews :: int

record review_schema =
  accepts :: "review_doc \<Rightarrow> bool"
  unique_index :: bool

record collections =
  Stores :: "store_doc list"
  Reviews :: "review_doc list"
  console :: "error list"

type_synonym response = "nat \<times> string"

text \<open>A call to the storage can reject (a lost connection, a timeout). Which of the two
  calls of \<open>updateStoreRating\<close> do is a parameter of the model.\<close>

record faults =
  find_rejects :: bool
  update_rejects :: bool

definition Review_findById :: "collections \<Rightarrow> nat \<Rightarrow> review_doc option" where
  "Review_findById c reviewId = find (\<lambda>r. ident r = reviewId) (Reviews c)"

definition Store_findById :: "collections \<Rightarrow> nat \<Rightarrow> store_doc option" where
  "Store_findById c storeId = find (\<lambda>s. ident s = storeId) (Stores c)"

definition Review_findOne :: "collections \<Rightarrow> nat \<Rightarrow> nat \<Rightarrow> review_doc option" where
  \<comment> \<open>\<open>Review.findOne({ user, store })\<close>\<close>
  "Review_findOne c userId storeId = find (\<lambda>r. user r = userId \<and> store r = storeId) (Reviews c)"

definition unique_user_store :: "review_doc list \<Rightarrow> review_doc \<Rightarrow> bool" where
  \<comment> \<open>Modelled from the spec: what a unique index of the reviews checks, when the missing
     file of the Review model declares one. An insertion "fails with ConstraintViolation
     if the unique pair already exists", a "storage-level uniqueness constraint"
     (section 4.2); Rating.js declares it for the ratings table only, as
     \<open>unique_user_store_rating\<close>.\<close>
  "unique_user_store docs doc =
     (\<not> list_ex (\<lambda>r. user r = user doc \<and> store r = store doc) docs)"

definition Review_create ::
  "review_schema \<Rightarrow> collections \<Rightarrow> review_doc \<Rightarrow> (error + review_doc) \<times> collections" where
  "Review_create schema c doc =
     (if \<not> accepts schema doc then (Inl (ValidationError ''Review validation failed''), c)
      else if unique_index schema \<and> \<not> unique_user_store (Reviews c) doc
      then (Inl (UniqueConstraintError ''unique_user_store_rating''), c)
      else let created = doc\<lparr>ident := new_ident (map ident (Reviews c))\<rparr>
           in (Inr created, c\<lparr>Reviews := Reviews c @ [created]\<rparr>))"

definition Review_save ::
  "review_schema \<Rightarrow> collections \<Rightarrow> review_doc \<Rightarrow> (error + review_doc) \<times> collections" where
  "Review_save schema c doc =
     (if \<not> accepts schema doc then (Inl (ValidationError ''Review validation failed''), c)
      else (Inr doc, c\<lparr>Reviews := map (\<lambda>r. if ident r = ident doc then doc else r) (Reviews c)\<rparr>))"

subsection \<open>updateStoreRating\<close>

text \<open>
  \<^verbatim>\<open>
  const updateStoreRating = async (storeId) => {
    try {
      const reviews = await Review.find({ store: storeId });
      if (reviews.length === 0) {
        await Store.findByIdAndUpdate(storeId, { averageRating: 0, totalReviews: 0 });
        return;
      }
      const totalRating = reviews.reduce((sum, review) => sum + review.rating, 0);
      const averageRating = totalRating / reviews.length;
      await Store.findByIdAndUpdate(storeId, {
        averageRating: parseFloat(averageRating.toFixed(1)),
        totalReviews: reviews.length
      });
    } catch (error) {
      console.error('Error updating store rating:', error);
    }
  };
  \<close>
  \<open>findByIdAndUpdate\<close> writes the two fields in one update of one document: it either
  happens or rejects with nothing written.
\<close>

definition Review_find :: "faults \<Rightarrow> collections \<Rightarrow> nat \<Rightarrow> error + review_doc list" where
  "Review_find f c storeId =
     (if find_rejects f then Inl (StorageError ''Review.find'')
      else Inr (filter (\<lambda>r. store r = storeId) (Reviews c)))"

definition Store_findByIdAndUpdate ::
  "faults \<Rightarrow> collections \<Rightarrow> nat \<Rightarrow> rat \<Rightarrow> int \<Rightarrow> (error + unit) \<times> collections" where
  "Store_findByIdAndUpdate f c storeId a n =
     (if update_rejects f then (Inl (StorageError ''Store.findByIdAndUpdate''), c)
      else (Inr (),
            c\<lparr>Stores := map (\<lambda>s. if ident s = storeId
                                  then s\<lparr>averageRating := a, totalReviews := n\<rparr> else s)
                             (Stores c)\<rparr>))"

definition store_rating :: "int list \<Rightarrow> rat \<times> int" where
  \<comment> \<open>the two values \<open>updateStoreRating\<close> writes, from the ratings of the reviews it found\<close>
  "store_rating rs =
     (if length rs = 0 then (0, 0)
      else let totalRating = foldl (\<lambda>sum r. sum + r) 0 rs;
               averageRating = js_div (of_int totalRating) (of_nat (length rs))
           in (parseFloat (toFixed averageRating 1), int (length rs)))"

definition updateStoreRating_try ::
  "faults \<Rightarrow> collections \<Rightarrow> nat \<Rightarrow> (error + unit) \<times> collections" where
  \<comment> \<open>the body of the \<open>try\<close> block\<close>
  "updateStoreRating_try f c storeId =
     (case Review_find f c storeId of
        Inl e \<Rightarrow> (Inl e, c)
      | Inr reviews \<Rightarrow>
          (let (a, n) = store_rating (map rating reviews)
           in Store_findByIdAndUpdate f c storeId a n))"

definition updateStoreRating ::
  "faults \<Rightarrow> collections \<Rightarrow> nat \<Rightarrow> (error + unit) \<times> collections" where
  \<comment> \<open>the \<open>catch\<close> block writes the error to the console and the function returns normally\<close>
  "updateStoreRating f c storeId =
     (case updateStoreRating_try f c storeId of
        (Inl e, c') \<Rightarrow> (Inr (), c'\<lparr>console := console c' @ [e]\<rparr>)
      | (Inr u, c') \<Rightarrow> (Inr (), c'))"

subsection \<open>addReview\<close>

definition new_review ::
  "nat \<Rightarrow> nat \<Rightarrow> int \<Rightarrow> string option \<Rightarrow> string option \<Rightarrow> string list option \<Rightarrow> review_doc" where
  \<comment> \<open>\<open>{ user: req.user._id, store: req.params.storeId, rating, title, comment, images }\<close>\<close>
  "new_review userId storeId rating_in title_in comment_in images_in =
     \<lparr>ident = 0, rating = rating_in, title = title_in, comment = comment_in,
      images = default_to [] images_in, reply = None,
      user = userId, store = storeId, helpfulVotes = 0\<rparr>"

definition addReview ::
  "review_schema \<Rightarrow> faults \<Rightarrow> collections \<Rightarrow> string list \<Rightarrow> review_doc
     \<Rightarrow> response \<times> collections" where
  \<comment> \<open>\<open>errors\<close> is the result of the request validators; \<open>doc\<close> is the document built from
     the request\<close>
  "addReview schema f c errors doc =
     (if errors \<noteq> [] then ((400, ''Validation errors''), c)
      else if Store_findById c (store doc) = None then ((404, ''Store not found''), c)
      else if Review_findOne c (user doc) (store doc) \<noteq> None
      then ((400, ''You have already reviewed this store''), c)
      else (case Review_create schema c doc of
              (Inl e, c') \<Rightarrow> ((500, ''Server Error''), c')
            | (Inr review, c') \<Rightarrow>
                (case updateStoreRating f c' (store doc) of
                   (Inl e, c'') \<Rightarrow> ((500, ''Server Error''), c'')
                 | (Inr u, c'') \<Rightarrow> ((201, ''Review added successfully''), c''))))"

subsection \<open>updateReview\<close>

text \<open>
  \<^verbatim>\<open>
  const { rating, title, comment, images } = req.body;
  review.rating = rating || review.rating;
  review.title = title || review.title;
  review.comment = comment || review.comment;
  review.images = images || review.images;
  \<close>
  A field of the body is \<open>None\<close> when the request does not give it (or gives \<open>null\<close>).
  \<open>a || b\<close> is \<open>a\<close> when \<open>a\<close> is truthy and \<open>b\<close> otherwise; \<open>0\<close>, the empty string,
  \<open>null\<close> and \<open>undefined\<close> are falsy, and every array is truthy.
\<close>

definition or_number :: "int option \<Rightarrow> int \<Rightarrow> int" where
  "or_number a b = (case a of None \<Rightarrow> b | Some n \<Rightarrow> if n = 0 then b else n)"

definition or_string :: "string option \<Rightarrow> string option \<Rightarrow> string option" where
  "or_string a b = (case a of None \<Rightarrow> b | Some s \<Rightarrow> if s = [] then b else Some s)"

definition or_array :: "string list option \<Rightarrow> string list \<Rightarrow> string list" where
  "or_array a b = (case a of None \<Rightarrow> b | Some xs \<Rightarrow> xs)"

record review_body =
  body_rating :: "int option"
  body_title :: "string option"
  body_comment :: "string option"
  body_images :: "string list option"

definition updateReview ::
  "review_schema \<Rightarrow> faults \<Rightarrow> collections \<Rightarrow> string list \<Rightarrow> nat \<Rightarrow> nat \<Rightarrow> review_body
     \<Rightarrow> response \<times> collections" where
  "updateReview schema f c errors userId reviewId body =
     (case Review_findById c reviewId of
        None \<Rightarrow> ((404, ''Review not found''), c)
      | Some review \<Rightarrow>
          if user review \<noteq> userId
          then ((403, ''Access denied. You can only update your own reviews.''), c)
          else if errors \<noteq> [] then ((400, ''Validation errors''), c)
          else (case Review_save schema c
                       (review\<lparr>rating := or_number (body_rating body) (rating review),
                               title := or_string (body_title body) (title review),
                               comment := or_string (body_comment body) (comment review),
                               images := or_array (body_images body) (images review)\<rparr>) of
                  (Inl e, c') \<Rightarrow> ((500, ''Server Error''), c')
                | (Inr updatedReview, c') \<Rightarrow>
                    (case updateStoreRating f c' (store review) of
                       (Inl e, c'') \<Rightarrow> ((500, ''Server Error''), c'')
                     | (Inr u, c'') \<Rightarrow> ((200, ''Review updated successfully''), c''))))"

subsection \<open>addReply\<close>


subsection \<open>Concurrent calls of addReview\<close>

text \<open>
  A call of \<open>addReview\<close> gives way to other calls at each \<open>await\<close>. Two of its awaited
  operations read or write the reviews: the lookup \<open>Review.findOne\<close> and the insertion
  \<open>Review.create\<close>, each atomic in the storage. A submit is the document of a call that
  has passed the request validators and found its store, with how far the call has
  come: before the lookup, between the lookup and the insertion, or answered, with the
  response. A schedule names, step by step, the call that runs its next operation; every
  interleaving of the calls is the run of some schedule.
\<close>

abbreviation review_added :: response where
  "review_added \<equiv> (201, ''Review added successfully'')"

abbreviation duplicate_review :: response where
  "duplicate_review \<equiv> (400, ''You have already reviewed this store'')"

abbreviation server_error :: response where
  "server_error \<equiv> (500, ''Server Error'')"

datatype progress = Start | Looked | Done response

type_synonym submit = "review_doc \<times> progress"

definition advance ::
  "review_schema \<Rightarrow> collections \<Rightarrow> submit \<Rightarrow> collections \<times> submit" where
  "advance schema c s =
     (case s of
        (doc, Start) \<Rightarrow>
          if Review_findOne c (user doc) (store doc) \<noteq> None then (c, (doc, Done duplicate_review))
          else (c, (doc, Looked))
      | (doc, Looked) \<Rightarrow>
          (case Review_create schema c doc of
             (Inl e, c') \<Rightarrow> (c', (doc, Done server_error))
           | (Inr review, c') \<Rightarrow> (c', (doc, Done review_added)))
      | (doc, Done status) \<Rightarrow> (c, (doc, Done status)))"

definition step_at ::
  "review_schema \<Rightarrow> collections \<times> submit list \<Rightarrow> nat \<Rightarrow> collections \<times> submit list" where
  "step_at schema state i =
     (case state of
        (c, calls) \<Rightarrow>
          if i < length calls
          then (case advance schema c (calls ! i) of (c', s') \<Rightarrow> (c', calls[i := s']))
          else (c, calls))"

definition run ::
  "review_schema \<Rightarrow> nat list \<Rightarrow> collections \<times> submit list \<Rightarrow> collections \<times> submit list" where
  "run schema schedule state = foldl (step_at schema) state schedule"

definition pair_rows :: "collections \<Rightarrow> nat \<Rightarrow> nat \<Rightarrow> review_doc list" where
  \<comment> \<open>the review rows of a user for a store\<close>
  "pair_rows c userId storeId = filter (\<lambda>r. user r = userId \<and> store r = storeId) (Reviews c)"

definition answered :: "response \<Rightarrow> submit list \<Rightarrow> nat" where
  \<comment> \<open>how many calls were answered with the response\<close>
  "answered r calls = length (filter (\<lambda>s. snd s = Done r) calls)"

definition finished :: "submit list \<Rightarrow> bool" where
  "finished calls = list_all (\<lambda>s. snd s \<noteq> Start \<and> snd s \<noteq> Looked) calls"

definition one_rating_per_pair :: "database \<Rightarrow> bool" where
  \<comment> \<open>no two rows of the ratings table have the same user and the same store\<close>
  "one_rating_per_pair db = distinct (map (\<lambda>r. (user_id r, store_id r)) (ratings db))"

definition one_review_per_pair :: "collections \<Rightarrow> bool" where
  \<comment> \<open>no two review rows have the same user and the same store\<close>
  "one_review_per_pair c = distinct (map (\<lambda>r. (user r, store r)) (Reviews c))"

definition same_pair_calls ::
  "nat \<Rightarrow> nat \<Rightarrow> review_schema \<Rightarrow> submit list \<Rightarrow> bool" where
  \<comment> \<open>calls of one user for one store, with documents the schema accepts\<close>
  "same_pair_calls userId storeId schema calls =
     list_all (\<lambda>s. user (fst s) = userId \<and> store (fst s) = storeId \<and> accepts schema (fst s)) calls"

definition not_started :: "submit list \<Rightarrow> bool" where
  "not_started calls = list_all (\<lambda>s. snd s = Start) calls"

text \<open>What holds of the calls of one user for one store at every moment of a run: the
  calls that were answered 201 are as many as the rows of the pair, at most one; and a
  call was answered 400 or 500 only when the pair has a row. Every step keeps it when
  the reviews have the unique index.\<close>

definition race_inv ::
  "nat \<Rightarrow> nat \<Rightarrow> review_schema \<Rightarrow> collections \<times> submit list \<Rightarrow> bool" where
  "race_inv u s schema state =
     (case state of
        (c, calls) \<Rightarrow>
          same_pair_calls u s schema calls \<and>
          answered review_added calls = length (pair_rows c u s) \<and>
          length (pair_rows c u s) \<le> 1 \<and>
          (list_ex (\<lambda>x. snd x = Done duplicate_review \<or> snd x = Done server_error) calls \<longrightarrow> pair_rows c u s \<noteq> []) \<and>
          list_all (\<lambda>x. snd x = Start \<or> snd x = Looked \<or> snd x = Done review_added \<or>
                          snd x = Done duplicate_review \<or> snd x = Done server_error) calls)"

section \<open>The notions of the specification\<close>

text \<open>
  The words of the specification that the code has no function for: the mean of a list
  of ratings, a number rounded half up to \<open>f\<close> decimals, and a number that lies exactly
  halfway between two neighbours with \<open>f\<close> decimals, where rounding half up and rounding
  to the nearest value part.
\<close>

definition mean :: "int list \<Rightarrow> rat" where
  "mean rs = of_int (sum_list rs) / of_nat (length rs)"

definition round_half_up :: "rat \<Rightarrow> nat \<Rightarrow> rat" where
  "round_half_up x f = of_int \<lfloor>x * 10 ^ f + 1 / 2\<rfloor> / 10 ^ f"

definition halfway :: "rat \<Rightarrow> nat \<Rightarrow> bool" where
  "halfway x f = (of_int \<lfloor>x * 10 ^ f + 1 / 2\<rfloor> = x * 10 ^ f + 1 / 2)"

section \<open>Example data\<close>

text \<open>A store with its reviews, in each of the two persistence layers, for the concrete
  runs below.\<close>

definition cafe :: store_row where
  "cafe = \<lparr>ident = 1, name = ''Cafe'', slug = Some ''cafe'', owner_id = 9,
           average_rating = 0, total_reviews = 0\<rparr>"

definition review_of :: "nat \<Rightarrow> nat \<Rightarrow> int \<Rightarrow> rating_row" where
  \<comment> \<open>an approved, unflagged review of the store 1\<close>
  "review_of key author stars =
     \<lparr>ident = key, rating = stars, title = None, comment = None, images = [], reply = None,
      user_id = author, store_id = 1, helpful_votes = 0, is_verified_purchase = False,
      is_flagged = False, flag_reason = None, is_approved = True\<rparr>"

definition rate :: "nat \<Rightarrow> int \<Rightarrow> rating_values" where
  \<comment> \<open>\<open>Rating.create({ user_id, store_id: 1, rating })\<close>\<close>
  "rate author stars =
     \<lparr>given_user_id = author, given_store_id = 1, given_rating = stars, given_title = None,
      given_comment = None, given_images = None, given_helpful_votes = None,
      given_reply = None, given_is_verified_purchase = None, given_is_flagged = None,
      given_flag_reason = None, given_is_approved = None\<rparr>"

definition shop :: store_doc where
  "shop = \<lparr>ident = 1, owner = 9, averageRating = 4, totalReviews = 1\<rparr>"

definition doc_of :: "nat \<Rightarrow> nat \<Rightarrow> int \<Rightarrow> string option \<Rightarrow> review_doc" where
  "doc_of key author stars heading =
     \<lparr>ident = key, rating = stars, title = heading, comment = None, images = [],
      reply = None, user = author, store = 1, helpfulVotes = 0\<rparr>"

definition one_review :: collections where
  "one_review = \<lparr>Stores = [shop], Reviews = [doc_of 1 7 4 (Some ''Great'')], console = []\<rparr>"

definition no_faults :: faults where
  "no_faults = \<lparr>find_rejects = False, update_rejects = False\<rparr>"

definition find_fails :: faults where
  "find_fails = \<lparr>find_rejects = True, update_rejects = False\<rparr>"

definition any_doc :: review_schema where
  \<comment> \<open>a schema that accepts every document, with the unique index\<close>
  "any_doc = \<lparr>accepts = (\<lambda>doc. True), unique_index = True\<rparr>"

definition no_index :: review_schema where
  \<comment> \<open>a schema that accepts every document, without the index\<close>
  "no_index = \<lparr>accepts = (\<lambda>doc. True), unique_index = False\<rparr>"

definition two_submits :: "submit list" where
  \<comment> \<open>two calls of the user 8 for the store 1, neither begun\<close>
  "two_submits =
     [(new_review 8 1 5 None None None, Start), (new_review 8 1 2 None None None, Start)]"

section \<open>The slug of a store\<close>

subsection \<open>The probing loop\<close>

lemma undecimal_decimal: "undecimal (decimal n) = n"
proof (induction n rule: decimal.induct)
  case (1 n)
  show ?case
  proof (cases "n < 10")
    case True
    then show ?thesis
      by (subst decimal.simps) (simp add: undecimal_def)
  next
    case False
    have m: "(48 + n mod 10) mod 256 = 48 + n mod 10"
      by (rule mod_less) (use mod_less_divisor [of 10 n] in linarith)
    from False 1 have "undecimal (decimal (n div 10)) = n div 10"
      by simp
    with False m show ?thesis
      by (subst decimal.simps) (simp add: undecimal_def)
  qed
qed

lemma decimal_inject: "decimal m = decimal n \<Longrightarrow> m = n"
  by (metis undecimal_decimal)

lemma candidate_inject: "candidate base j = candidate base k \<Longrightarrow> j = k"
  by (simp add: candidate_def decimal_inject)

lemma slug_loop_probe:
  assumes "findOne cur"
    and "\<And>j. counter \<le> j \<Longrightarrow> j < k \<Longrightarrow> findOne (candidate base j)"
    and "\<not> findOne (candidate base k)"
    and "counter \<le> k"
  shows "slug_loop findOne base cur counter = Some (candidate base k)"
  using assms
proof (induction "k - counter" arbitrary: cur counter)
  case 0
  then have "counter = k" by simp
  with 0 show ?case
    by (subst slug_loop.simps, simp, subst slug_loop.simps, simp)
next
  case (Suc d)
  then have lt: "counter < k" by simp
  with Suc.prems have taken: "findOne (candidate base counter)" by simp
  have "slug_loop findOne base (candidate base counter) (counter + 1) = Some (candidate base k)"
  proof (rule Suc.hyps(1))
    show "d = k - (counter + 1)" using Suc.hyps(2) by simp
    show "findOne (candidate base counter)" by (rule taken)
    show "\<And>j. counter + 1 \<le> j \<Longrightarrow> j < k \<Longrightarrow> findOne (candidate base j)"
      using Suc.prems(2) by simp
    show "\<not> findOne (candidate base k)" by (rule Suc.prems(3))
    show "counter + 1 \<le> k" using lt by simp
  qed
  with Suc.prems(1) show ?case
    by (subst slug_loop.simps) simp
qed

lemma free_candidate_exists:
  assumes "finite {s. findOne s}"
  shows "\<exists>k>0. \<not> findOne (candidate base k) \<and> (\<forall>j. 0 < j \<and> j < k \<longrightarrow> findOne (candidate base j))"
proof -
  have "inj (\<lambda>j. candidate base (Suc j))"
    by (rule injI) (auto dest: candidate_inject)
  then have "infinite (range (\<lambda>j. candidate base (Suc j)))"
    by (simp add: finite_image_iff)
  with assms have "\<not> range (\<lambda>j. candidate base (Suc j)) \<subseteq> {s. findOne s}"
    using finite_subset by blast
  then obtain j where j: "\<not> findOne (candidate base (Suc j))"
    by auto
  define k where "k = (LEAST k. 0 < k \<and> \<not> findOne (candidate base k))"
  have P: "0 < Suc j \<and> \<not> findOne (candidate base (Suc j))"
    using j by simp
  have k1: "0 < k \<and> \<not> findOne (candidate base k)"
    unfolding k_def by (rule LeastI [of "\<lambda>k. 0 < k \<and> \<not> findOne (candidate base k)", OF P])
  have k2: "findOne (candidate base i)" if "0 < i" "i < k" for i
    using not_less_Least [of i "\<lambda>k. 0 < k \<and> \<not> findOne (candidate base k)"] that
    unfolding k_def by auto
  from k1 k2 show ?thesis by blast
qed

text \<open>
  Claim C4. For every name, generateSlug trims the hyphens at the edges of the slug, so
  that the slug never begins or ends with a hyphen. The code calls \<open>trim()\<close> last, when the
  white space it removes has already become hyphens: for the name \<open>" Joe"\<close>, with no
  store yet, the slug is \<open>"-joe"\<close>.
\<close>

theorem generateSlug_leading_space:
  "generateSlug (\<lambda>s. False) '' Joe'' = Some ''-joe''"
proof -
  have "baseSlug '' Joe'' = ''-joe''"
    by code_simp
  then show ?thesis
    by (simp add: generateSlug_def slug_loop.simps)
qed

text \<open>
  Claim C5. For every name and every existence oracle: when the base slug is free,
  generateSlug returns it; when it is taken, generateSlug returns the candidate
  \<open>base-k\<close> for the least \<open>k \<ge> 1\<close> that the oracle calls free, having found \<open>base-1\<close>,
  ..., \<open>base-(k-1)\<close> taken; and when only finitely many slugs exist, it always returns a
  slug that is free.
\<close>

theorem generateSlug_first_free:
  "(\<not> findOne (baseSlug store_name) \<longrightarrow> generateSlug findOne store_name = Some (baseSlug store_name)) \<and>
   (findOne (baseSlug store_name) \<and> 0 < k \<and>
    (\<forall>j. 0 < j \<and> j < k \<longrightarrow> findOne (candidate (baseSlug store_name) j)) \<and>
    \<not> findOne (candidate (baseSlug store_name) k)
    \<longrightarrow> generateSlug findOne store_name = Some (candidate (baseSlug store_name) k)) \<and>
   (finite {s. findOne s} \<longrightarrow> (\<exists>slug. generateSlug findOne store_name = Some slug \<and> \<not> findOne slug))"
proof (intro conjI impI)
  assume "\<not> findOne (baseSlug store_name)"
  then show "generateSlug findOne store_name = Some (baseSlug store_name)"
    by (simp add: generateSlug_def slug_loop.simps)
next
  assume a: "findOne (baseSlug store_name) \<and> 0 < k \<and>
    (\<forall>j. 0 < j \<and> j < k \<longrightarrow> findOne (candidate (baseSlug store_name) j)) \<and>
    \<not> findOne (candidate (baseSlug store_name) k)"
  then have "slug_loop findOne (baseSlug store_name) (baseSlug store_name) 1 = Some (candidate (baseSlug store_name) k)"
    by (intro slug_loop_probe) auto
  then show "generateSlug findOne store_name = Some (candidate (baseSlug store_name) k)"
    by (simp add: generateSlug_def)
next
  assume fin: "finite {s. findOne s}"
  show "\<exists>slug. generateSlug findOne store_name = Some slug \<and> \<not> findOne slug"
  proof (cases "findOne (baseSlug store_name)")
    case False
    then show ?thesis
      by (simp add: generateSlug_def slug_loop.simps)
  next
    case True
    from free_candidate_exists [OF fin, of "baseSlug store_name"]
    obtain k where k: "0 < k" "\<not> findOne (candidate (baseSlug store_name) k)"
      "\<forall>j. 0 < j \<and> j < k \<longrightarrow> findOne (candidate (baseSlug store_name) j)"
      by blast
    with True have "slug_loop findOne (baseSlug store_name) (baseSlug store_name) 1
        = Some (candidate (baseSlug store_name) k)"
      by (intro slug_loop_probe) auto
    with k(2) show ?thesis
      by (simp add: generateSlug_def)
  qed
qed

theorem generateSlug_joes_cafe:
  "generateSlug (\<lambda>s. s = ''joes-cafe'') ''Joe's Cafe'' = Some ''joes-cafe-1''"
proof -
  have b: "baseSlug ''Joe's Cafe'' = ''joes-cafe''"
    by code_simp
  have c: "candidate ''joes-cafe'' (Suc 0) = ''joes-cafe-1''"
    by code_simp
  have "generateSlug (\<lambda>s. s = ''joes-cafe'') ''Joe's Cafe''
      = Some (candidate (baseSlug ''Joe's Cafe'') 1)"
    using generateSlug_first_free [of "\<lambda>s. s = ''joes-cafe''" "''Joe's Cafe''" 1]
    by (simp add: b c)
  then show ?thesis
    by (simp add: b c)
qed

section \<open>The recomputed average\<close>

subsection \<open>Rounding to binary64 and to decimals\<close>

lemma round_ties_even_near: "\<bar>of_int (round_ties_even y) - y\<bar> \<le> 1 / 2"
proof -
  define n where "n = \<lfloor>y\<rfloor>"
  have n: "of_int n \<le> y" "y < of_int n + 1"
    unfolding n_def by linarith+
  have "round_ties_even y = n \<and> y - of_int n \<le> 1 / 2 \<or>
        round_ties_even y = n + 1 \<and> 1 / 2 \<le> y - of_int n"
    unfolding round_ties_even_def Let_def n_def [symmetric] by auto
  then show ?thesis
  proof
    assume "round_ties_even y = n \<and> y - of_int n \<le> 1 / 2"
    with n show ?thesis by simp
  next
    assume "round_ties_even y = n + 1 \<and> 1 / 2 \<le> y - of_int n"
    with n show ?thesis by simp
  qed
qed

lemma binade_le_2:
  assumes "1 \<le> x" "x < 8"
  shows "binade x \<le> 2"
proof -
  have "\<lfloor>x\<rfloor> < 2 ^ nat 3"
    using assms by (simp add: floor_less_iff)
  then have "bitlen \<lfloor>x\<rfloor> \<le> 3"
    by (simp only: bitlen_le_iff_power) simp
  with assms show ?thesis
    by (simp add: binade_def)
qed

lemma fl64_near:
  assumes "1 \<le> x" "x < 8"
  shows "\<bar>fl64 x - x\<bar> \<le> 1 / 2 ^ 51"
proof -
  define ulp :: rat where "ulp = 2 powi (binade \<bar>x\<bar> - 52)"
  have pos: "0 < ulp"
    by (simp add: ulp_def zero_less_power_int)
  have "binade \<bar>x\<bar> - 52 \<le> - 50"
    using binade_le_2 [OF assms] assms by simp
  then have "ulp \<le> 2 powi (- 50)"
    unfolding ulp_def by (intro power_int_increasing) simp_all
  then have small: "ulp \<le> 1 / 2 ^ 50"
    by (simp add: power_int_minus_divide)
  have eq: "fl64 x = of_int (round_ties_even (x / ulp)) * ulp"
    using assms by (simp add: fl64_def Let_def ulp_def)
  have "fl64 x - x = (of_int (round_ties_even (x / ulp)) - x / ulp) * ulp"
    using pos by (simp add: eq field_simps)
  then have "\<bar>fl64 x - x\<bar> = \<bar>of_int (round_ties_even (x / ulp)) - x / ulp\<bar> * ulp"
    using pos by (simp add: abs_mult)
  also have "\<dots> \<le> (1 / 2) * ulp"
    using round_ties_even_near [of "x / ulp"] pos by (intro mult_right_mono) simp_all
  also have "\<dots> \<le> (1 / 2) * (1 / 2 ^ 50)"
    using small by simp
  finally show ?thesis by simp
qed

lemma floor_stable:
  fixes y y' :: rat
  assumes a: "of_int a = y * of_int d" and d: "0 < d"
    and nonint: "y \<notin> \<int>" and near: "\<bar>y' - y\<bar> < 1 / of_int d"
  shows "\<lfloor>y'\<rfloor> = \<lfloor>y\<rfloor>"
proof -
  define m where "m = \<lfloor>y\<rfloor>"
  have dq: "(0::rat) < of_int d" using d by simp
  have m1: "of_int m \<le> y" and m2: "y < of_int m + 1"
    unfolding m_def by linarith+
  have "y \<noteq> of_int m" using nonint by (metis Ints_of_int)
  with m1 have "of_int m < y" by simp
  then have "of_int m * of_int d < (of_int a :: rat)"
    unfolding a using dq by simp
  then have "m * d < a"
    by (metis of_int_less_iff of_int_mult)
  then have "m * d + 1 \<le> a" by simp
  then have "(of_int (m * d + 1) :: rat) \<le> of_int a"
    by (simp only: of_int_le_iff)
  then have lo: "of_int m + 1 / of_int d \<le> y"
    unfolding a using dq by (simp add: field_simps)
  from m2 have "(of_int a :: rat) < (of_int m + 1) * of_int d"
    unfolding a using dq by simp
  then have "a < (m + 1) * d"
    by (metis of_int_less_iff of_int_mult of_int_add of_int_1)
  then have "a + 1 \<le> (m + 1) * d" by simp
  then have "(of_int (a + 1) :: rat) \<le> of_int ((m + 1) * d)"
    by (simp only: of_int_le_iff)
  then have hi: "y + 1 / of_int d \<le> of_int m + 1"
    unfolding of_int_add a using dq by (simp add: field_simps)
  from near have "y - 1 / of_int d < y'" "y' < y + 1 / of_int d"
    by linarith+
  with lo hi have "of_int m \<le> y'" "y' < of_int m + 1"
    by linarith+
  then have "\<lfloor>y'\<rfloor> = m"
    by (rule floor_unique)
  then show ?thesis by (simp add: m_def)
qed

lemma floor_at_tie:
  fixes y y' :: rat
  assumes "y \<in> \<int>" "\<bar>y' - y\<bar> < 1"
  shows "\<lfloor>y'\<rfloor> = \<lfloor>y\<rfloor> \<or> \<lfloor>y'\<rfloor> = \<lfloor>y\<rfloor> - 1"
proof -
  from assms(1) obtain k where k: "y = of_int k" by (auto elim: Ints_cases)
  from assms(2) have "of_int k - 1 < y'" "y' < of_int k + 1"
    unfolding k by linarith+
  then have "\<lfloor>y'\<rfloor> = k \<or> \<lfloor>y'\<rfloor> = k - 1"
    by linarith
  then show ?thesis by (simp add: k)
qed

lemma rounded_mean:
  fixes s n S :: int
  assumes n: "0 < n" "n < 2 ^ 40" and s: "n \<le> s" "s \<le> 5 * n" and S: "0 < S" "S \<le> 100"
  defines "x \<equiv> (of_int s / of_int n :: rat)"
  shows "\<bar>of_int \<lfloor>fl64 x * of_int S + 1 / 2\<rfloor> / of_int S - x\<bar> \<le> 1 / (2 * of_int S)"
    and "x * of_int S + 1 / 2 \<notin> \<int> \<Longrightarrow>
         \<lfloor>fl64 x * of_int S + 1 / 2\<rfloor> = \<lfloor>x * of_int S + 1 / 2\<rfloor>"
    and "0 \<le> fl64 x"
proof -
  have nq: "(0::rat) < of_int n" using n by simp
  have Sq: "(0::rat) < of_int S" "(of_int S :: rat) \<le> 100" using S by simp_all
  have x1: "1 \<le> x" and x5: "x \<le> 5"
    unfolding x_def using nq s
    by (simp_all add: field_simps)
  then have near: "\<bar>fl64 x - x\<bar> \<le> 1 / 2 ^ 51"
    by (intro fl64_near) simp_all
  moreover have "(1::rat) / 2 ^ 51 \<le> 1" by simp
  ultimately have "\<bar>fl64 x - x\<bar> \<le> 1" by (rule order_trans)
  with x1 show "0 \<le> fl64 x" by linarith
  define y where "y = x * of_int S + 1 / 2"
  define y' where "y' = fl64 x * of_int S + 1 / 2"
  have "\<bar>y' - y\<bar> = \<bar>fl64 x - x\<bar> * of_int S"
    using Sq by (simp add: y_def y'_def left_diff_distrib [symmetric] abs_mult)
  also have "\<dots> \<le> (1 / 2 ^ 51) * 100"
    using near Sq by (intro mult_mono) simp_all
  finally have close: "\<bar>y' - y\<bar> \<le> 100 / 2 ^ 51" by simp
  have a: "of_int (2 * S * s + n) = y * of_int (2 * n)"
    using nq by (simp add: y_def x_def field_simps)
  have "2 * n < 2 ^ 41" using n by simp
  then have "(of_int (2 * n) :: rat) < of_int (2 ^ 41)"
    by (simp only: of_int_less_iff)
  then have "(1 :: rat) / 2 ^ 41 < 1 / of_int (2 * n)"
    using nq by (simp add: field_simps)
  with close have fine: "\<bar>y' - y\<bar> < 1 / of_int (2 * n)"
    by simp
  have stable: "\<lfloor>y'\<rfloor> = \<lfloor>y\<rfloor>" if "y \<notin> \<int>"
    using floor_stable [OF a _ that fine] n by simp
  then show "x * of_int S + 1 / 2 \<notin> \<int> \<Longrightarrow>
         \<lfloor>fl64 x * of_int S + 1 / 2\<rfloor> = \<lfloor>x * of_int S + 1 / 2\<rfloor>"
    by (simp add: y_def y'_def)
  have half: "\<bar>of_int \<lfloor>y'\<rfloor> + 1 / 2 - y\<bar> \<le> 1 / 2"
  proof (cases "y \<in> \<int>")
    case True
    then obtain k where k: "y = of_int k" by (auto elim: Ints_cases)
    from close have "\<bar>y' - y\<bar> < 1" by simp
    from floor_at_tie [OF True this] show ?thesis
      by (auto simp: k)
  next
    case False
    have "of_int \<lfloor>y\<rfloor> \<le> y" "y < of_int \<lfloor>y\<rfloor> + 1" by linarith+
    then show ?thesis
      unfolding stable [OF False] by linarith
  qed
  have "of_int \<lfloor>y'\<rfloor> / of_int S - x = (of_int \<lfloor>y'\<rfloor> + 1 / 2 - y) / of_int S"
    using Sq by (simp add: y_def field_simps)
  then have "\<bar>of_int \<lfloor>y'\<rfloor> / of_int S - x\<bar> = \<bar>of_int \<lfloor>y'\<rfloor> + 1 / 2 - y\<bar> / of_int S"
    using Sq by (simp add: abs_divide)
  also have "\<dots> \<le> (1 / 2) / of_int S"
    using half Sq by (intro divide_right_mono) simp_all
  finally show "\<bar>of_int \<lfloor>fl64 x * of_int S + 1 / 2\<rfloor> / of_int S - x\<bar> \<le> 1 / (2 * of_int S)"
    by (simp add: y'_def)
qed

subsection \<open>The two recomputes\<close>

lemma foldl_plus: "foldl (\<lambda>acc r. acc + r) a rs = a + sum_list rs"
  for a :: int
  by (induction rs arbitrary: a) auto

lemma sum_list_bounds:
  "\<forall>r\<in>set rs. 1 \<le> r \<and> r \<le> 5 \<Longrightarrow>
   int (length rs) \<le> sum_list rs \<and> sum_list rs \<le> 5 * int (length rs)"
  for rs :: "int list"
  by (induction rs) auto

lemma not_halfway: "\<not> halfway x f \<Longrightarrow> x * 10 ^ f + 1 / 2 \<notin> \<int>"
  unfolding halfway_def by (metis Ints_cases floor_of_int)

lemma stats_of_valid_ratings:
  fixes rs :: "int list"
  assumes ne: "rs \<noteq> []" and valid: "\<forall>r\<in>set rs. 1 \<le> r \<and> r \<le> 5"
    and len: "length rs < 2 ^ 40"
  shows "rating_stats rs = (of_int \<lfloor>fl64 (mean rs) * 100 + 1 / 2\<rfloor> / 100, int (length rs))"
    and "store_rating rs = (fl64 (of_int \<lfloor>fl64 (mean rs) * 10 + 1 / 2\<rfloor> / 10), int (length rs))"
    and "\<bar>of_int \<lfloor>fl64 (mean rs) * 100 + 1 / 2\<rfloor> / 100 - mean rs\<bar> \<le> 1 / 200"
    and "\<bar>of_int \<lfloor>fl64 (mean rs) * 10 + 1 / 2\<rfloor> / 10 - mean rs\<bar> \<le> 1 / 20"
    and "\<not> halfway (mean rs) 2 \<Longrightarrow>
         of_int \<lfloor>fl64 (mean rs) * 100 + 1 / 2\<rfloor> / 100 = round_half_up (mean rs) 2"
    and "\<not> halfway (mean rs) 1 \<Longrightarrow>
         of_int \<lfloor>fl64 (mean rs) * 10 + 1 / 2\<rfloor> / 10 = round_half_up (mean rs) 1"
proof -
  define n where "n = int (length rs)"
  define s where "s = sum_list rs"
  have n: "0 < n" "n < 2 ^ 40"
    using ne len by (simp_all add: n_def)
  have s: "n \<le> s" "s \<le> 5 * n"
    using sum_list_bounds [OF valid] by (simp_all add: n_def s_def)
  have m: "mean rs = of_int s / of_int n"
    by (simp add: mean_def n_def s_def)
  note r100 = rounded_mean [OF n s, of 100, folded m, simplified]
  note r10 = rounded_mean [OF n s, of 10, folded m, simplified]
  have q: "js_div (of_int (foldl (\<lambda>acc r. acc + r) 0 rs)) (of_nat (length rs)) = fl64 (mean rs)"
    by (simp add: js_div_def foldl_plus mean_def)
  have nonneg: "\<not> fl64 (mean rs) < 0"
    using r100(3) by simp
  show "rating_stats rs = (of_int \<lfloor>fl64 (mean rs) * 100 + 1 / 2\<rfloor> / 100, int (length rs))"
    using ne nonneg by (simp add: rating_stats_def Let_def q toFixed_def)
  show "store_rating rs = (fl64 (of_int \<lfloor>fl64 (mean rs) * 10 + 1 / 2\<rfloor> / 10), int (length rs))"
    using ne nonneg by (simp add: store_rating_def Let_def q toFixed_def parseFloat_def)
  show "\<bar>of_int \<lfloor>fl64 (mean rs) * 100 + 1 / 2\<rfloor> / 100 - mean rs\<bar> \<le> 1 / 200"
    using r100(1) by simp
  show "\<bar>of_int \<lfloor>fl64 (mean rs) * 10 + 1 / 2\<rfloor> / 10 - mean rs\<bar> \<le> 1 / 20"
    using r10(1) by simp
  show "of_int \<lfloor>fl64 (mean rs) * 100 + 1 / 2\<rfloor> / 100 = round_half_up (mean rs) 2"
    if "\<not> halfway (mean rs) 2"
    using r100(2) not_halfway [OF that] by (simp add: round_half_up_def)
  show "of_int \<lfloor>fl64 (mean rs) * 10 + 1 / 2\<rfloor> / 10 = round_half_up (mean rs) 1"
    if "\<not> halfway (mean rs) 1"
    using r10(2) not_halfway [OF that] by (simp add: round_half_up_def)
qed

text \<open>
  Claim C2. For every list of ratings the recompute fetched: when the list is empty,
  both recomputes write the average 0 and the total 0. When it is not, the total is the
  number of ratings, and, for ratings between 1 and 5 and fewer than \<open>2^40\<close> of them,
  \<open>Store.prototype.updateRatingStats\<close> writes the two-decimal number \<open>k / 100\<close> where \<open>k\<close>
  is the binary64 quotient of the sum by the count, times 100, rounded half up; it lies
  within 0.005 of the exact mean and is the exact mean rounded half up to two decimals
  unless the exact mean lies halfway between two hundredths. \<open>updateStoreRating\<close> of the
  controller writes the number nearest to the one-decimal \<open>k / 10\<close> formed the same way.
\<close>

theorem recompute_rounding:
  "rating_stats [] = (0, 0) \<and> store_rating [] = (0, 0) \<and>
   (rs \<noteq> [] \<and> (\<forall>r\<in>set rs. 1 \<le> r \<and> r \<le> 5) \<and> length rs < 2 ^ 40 \<longrightarrow>
      snd (rating_stats rs) = int (length rs) \<and>
      snd (store_rating rs) = int (length rs) \<and>
      (\<exists>k. fst (rating_stats rs) = of_int k / 100 \<and>
           k = \<lfloor>js_div (of_int (sum_list rs)) (of_nat (length rs)) * 100 + 1 / 2\<rfloor> \<and>
           \<bar>of_int k / 100 - mean rs\<bar> \<le> 1 / 200 \<and>
           (\<not> halfway (mean rs) 2 \<longrightarrow> of_int k / 100 = round_half_up (mean rs) 2)) \<and>
      (\<exists>k. fst (store_rating rs) = parseFloat (of_int k / 10) \<and>
           k = \<lfloor>js_div (of_int (sum_list rs)) (of_nat (length rs)) * 10 + 1 / 2\<rfloor> \<and>
           \<bar>of_int k / 10 - mean rs\<bar> \<le> 1 / 20 \<and>
           (\<not> halfway (mean rs) 1 \<longrightarrow> of_int k / 10 = round_half_up (mean rs) 1)))"
proof (intro conjI impI)
  show "rating_stats [] = (0, 0)" by (simp add: rating_stats_def)
  show "store_rating [] = (0, 0)" by (simp add: store_rating_def)
next
  assume "rs \<noteq> [] \<and> (\<forall>r\<in>set rs. 1 \<le> r \<and> r \<le> 5) \<and> length rs < 2 ^ 40"
  then have h: "rs \<noteq> []" "\<forall>r\<in>set rs. 1 \<le> r \<and> r \<le> 5" "length rs < 2 ^ 40"
    by simp_all
  note st = stats_of_valid_ratings [OF h]
  have q: "js_div (of_int (sum_list rs)) (of_nat (length rs)) = fl64 (mean rs)"
    by (simp add: js_div_def mean_def)
  show "snd (rating_stats rs) = int (length rs)" by (simp add: st(1))
  show "snd (store_rating rs) = int (length rs)" by (simp add: st(2))
  show "\<exists>k. fst (rating_stats rs) = of_int k / 100 \<and>
           k = \<lfloor>js_div (of_int (sum_list rs)) (of_nat (length rs)) * 100 + 1 / 2\<rfloor> \<and>
           \<bar>of_int k / 100 - mean rs\<bar> \<le> 1 / 200 \<and>
           (\<not> halfway (mean rs) 2 \<longrightarrow> of_int k / 100 = round_half_up (mean rs) 2)"
    unfolding q using st(3) st(5) by (simp add: st(1))
  show "\<exists>k. fst (store_rating rs) = parseFloat (of_int k / 10) \<and>
           k = \<lfloor>js_div (of_int (sum_list rs)) (of_nat (length rs)) * 10 + 1 / 2\<rfloor> \<and>
           \<bar>of_int k / 10 - mean rs\<bar> \<le> 1 / 20 \<and>
           (\<not> halfway (mean rs) 1 \<longrightarrow> of_int k / 10 = round_half_up (mean rs) 1)"
    unfolding q using st(4) st(6) by (simp add: st(2) parseFloat_def)
qed

text \<open>
  The claim as stated fails twice. Thirty-nine ratings of 1 and one of 2 have the mean
  1.025, which rounds half up to 1.03; the binary64 quotient 41 / 40 lies just below
  1.025 and \<open>toFixed(2)\<close> gives 1.02. And for the ratings 1, 1, 1, 2, of mean 1.25, the
  controller writes 1.3.
\<close>

theorem recompute_rounding_counterexample:
  "fst (rating_stats (replicate 39 1 @ [2])) = 102 / 100 \<and>
   round_half_up (mean (replicate 39 1 @ [2])) 2 = 103 / 100 \<and>
   fst (rating_stats (replicate 39 1 @ [2])) \<noteq> round_half_up (mean (replicate 39 1 @ [2])) 2 \<and>
   fst (store_rating [1, 1, 1, 2]) = parseFloat (13 / 10) \<and>
   round_half_up (mean [1, 1, 1, 2]) 2 = 125 / 100 \<and>
   fst (store_rating [1, 1, 1, 2]) \<noteq> round_half_up (mean [1, 1, 1, 2]) 2"
  by code_simp

text \<open>The ratings 5 and 3: the store gets the average 4.00 and the total 2.\<close>

theorem recompute_rounding_witness:
  "snd (rating_stats [5, 3]) = 2 \<and> snd (store_rating [5, 3]) = 2 \<and>
   fst (rating_stats [5, 3]) = round_half_up (mean [5, 3]) 2 \<and>
   fst (rating_stats [5, 3]) = 4"
proof -
  have h: "[5, 3] \<noteq> [] \<and> (\<forall>r\<in>set [5, 3 :: int]. 1 \<le> r \<and> r \<le> 5) \<and> length [5, 3 :: int] < 2 ^ 40"
    by simp
  have nh: "\<not> halfway (mean [5, 3]) 2"
    by code_simp
  have v: "round_half_up (mean [5, 3]) 2 = 4"
    by code_simp
  from recompute_rounding [of "[5, 3]"] h nh
  have "snd (rating_stats [5, 3]) = int (length [5, 3 :: int])"
    and "snd (store_rating [5, 3]) = int (length [5, 3 :: int])"
    and "fst (rating_stats [5, 3]) = round_half_up (mean [5, 3]) 2"
    by auto
  then show ?thesis
    by (simp add: v)
qed
section \<open>Rows by key\<close>

lemma find_ident: "find (\<lambda>r. ident r = k) rs = Some r0 \<Longrightarrow> ident r0 = k"
  by (induction rs) (auto split: if_splits)

lemma find_map_replace:
  "find (\<lambda>r. ident r = k) rs = Some r0 \<Longrightarrow> ident d = k \<Longrightarrow>
   find (\<lambda>r. ident r = k) (map (\<lambda>r. if ident r = k then d else r) rs) = Some d"
  by (induction rs) (auto split: if_splits)

lemma filter_map_replace:
  "ident d = k \<Longrightarrow>
   filter (\<lambda>r. ident r \<noteq> k) (map (\<lambda>r. if ident r = k then d else r) rs)
   = filter (\<lambda>r. ident r \<noteq> k) rs"
  by (induction rs) auto

section \<open>Ratings and the statistics of their store\<close>

lemma returning_Inr:
  "returning v saved = (Inr w, db') \<Longrightarrow> saved = (Inr (), db') \<and> w = v"
  by (cases saved) (auto simp: returning_def split: sum.splits)

lemma rating_stats_total: "snd (rating_stats rs) = int (length rs)"
  by (simp add: rating_stats_def Let_def)

lemma Store_save_Inr:
  "Store_save db s = (Inr u, db') \<Longrightarrow>
   db' = db\<lparr>stores := map (\<lambda>x. if ident x = ident s then s else x) (stores db)\<rparr>"
  by (cases "Store_validate s") (auto simp: Store_save_def)

lemma Rating_create_created:
  assumes "Rating_create db v = (Inr created, db')"
  shows "created = Rating_build db v"
    and "afterCreate (db\<lparr>ratings := ratings db @ [created]\<rparr>) created = (Inr (), db')"
proof -
  let ?built = "Rating_build db v"
  have eq: "Rating_create db v =
     (case Rating_validate ?built of
        msg # _ \<Rightarrow> (Inl (ValidationError msg), db)
      | [] \<Rightarrow>
          if \<not> unique_user_store_rating (ratings db) ?built
          then (Inl (UniqueConstraintError ''unique_user_store_rating''), db)
          else returning ?built (afterCreate (db\<lparr>ratings := ratings db @ [?built]\<rparr>) ?built))"
    unfolding Rating_create_def Let_def ..
  have ok: "fst (Rating_create db v) = Inr created"
    using assms by simp
  have v: "Rating_validate ?built = []"
    using ok unfolding eq by (cases "Rating_validate ?built") simp_all
  have u: "unique_user_store_rating (ratings db) ?built"
    using ok unfolding eq v by (rule_tac ccontr) simp
  have "returning ?built (afterCreate (db\<lparr>ratings := ratings db @ [?built]\<rparr>) ?built) = (Inr created, db')"
    using assms unfolding eq v by (simp add: u)
  from returning_Inr [OF this]
  show "created = Rating_build db v"
    and "afterCreate (db\<lparr>ratings := ratings db @ [created]\<rparr>) created = (Inr (), db')"
    by simp_all
qed

text \<open>
  Claim C1. After every committed review mutation, the stored total_reviews of a store is
  the number of its approved reviews and the stored average_rating is their mean. The
  recompute that the hooks call reads every rating of the store through \<open>getRatings\<close>,
  approved or not. A store has two approved reviews, of 5 and of 1 star; rejecting the
  second one leaves one approved review, and the hook writes the total 2 and the average
  3.00.
\<close>

theorem reject_keeps_counting:
  "reject \<lparr>stores = [cafe\<lparr>average_rating := 3, total_reviews := 2\<rparr>],
           ratings = [review_of 1 7 5, review_of 2 8 1]\<rparr> (review_of 2 8 1)
     = (Inr True,
        \<lparr>stores = [cafe\<lparr>average_rating := 3, total_reviews := 2\<rparr>],
         ratings = [review_of 1 7 5, (review_of 2 8 1)\<lparr>is_approved := False\<rparr>]\<rparr>)"
  by code_simp

text \<open>
  Claim C3. Flagging a review without a reason fails with a validation error and leaves
  the tables as they were; flagging it as spam sets is_flagged, clears is_approved, and
  the recomputed statistics of the store exclude the review. The first two hold in this
  run; the statistics written after the flag still count the review (total 1, average
  4.00), where the store has no approved review left.
\<close>

theorem flag_spam_still_counted:
  "flag \<lparr>stores = [cafe\<lparr>average_rating := 4, total_reviews := 1\<rparr>], ratings = [review_of 1 7 4]\<rparr>
        (review_of 1 7 4) None
     = (Inl (ValidationError ''Flag reason is required when review is flagged''),
        \<lparr>stores = [cafe\<lparr>average_rating := 4, total_reviews := 1\<rparr>], ratings = [review_of 1 7 4]\<rparr>) \<and>
   flag \<lparr>stores = [cafe\<lparr>average_rating := 4, total_reviews := 1\<rparr>], ratings = [review_of 1 7 4]\<rparr>
        (review_of 1 7 4) (Some spam)
     = (Inr True,
        \<lparr>stores = [cafe\<lparr>average_rating := 4, total_reviews := 1\<rparr>],
         ratings = [(review_of 1 7 4)\<lparr>is_flagged := True, flag_reason := Some spam,
                                      is_approved := False\<rparr>]\<rparr>)"
  by code_simp

text \<open>
  Claim C10. A review created without a value for is_approved is approved, whatever
  else is given, and its creation recomputes the statistics of its store at once: the
  total becomes the number of ratings the store had plus one, and the average is the
  one the recompute forms from those ratings and the new one.
\<close>

theorem create_is_approved_and_counted:
  assumes "Rating_create db v = (Inr created, db')"
  shows "(given_is_approved v = None \<longrightarrow> is_approved created) \<and>
     created \<in> set (ratings db') \<and>
     (\<forall>st. getStore db created = Some st \<longrightarrow>
        (\<exists>st'. find (\<lambda>s. ident s = store_id created) (stores db') = Some st' \<and>
           total_reviews st' = int (length (getRatings db st)) + 1 \<and>
           average_rating st' =
             fst (rating_stats (map rating (getRatings db st) @ [given_rating v]))))"
proof (intro conjI allI impI)
  note c = Rating_create_created [OF assms]
  assume "given_is_approved v = None"
  then show "is_approved created"
    by (simp add: c(1) Rating_build_def default_to_def)
next
  note c = Rating_create_created [OF assms]
  let ?db1 = "db\<lparr>ratings := ratings db @ [created]\<rparr>"
  have "ratings db' = ratings ?db1"
  proof (cases "getStore ?db1 created")
    case None
    with c(2) show ?thesis by (simp add: afterCreate_def refresh_store_def)
  next
    case (Some st)
    with c(2) have "updateRatingStats ?db1 st = (Inr (), db')"
      by (simp add: afterCreate_def refresh_store_def)
    then obtain s' where "Store_save ?db1 s' = (Inr (), db')"
      by (auto simp: updateRatingStats_def split: prod.splits)
    from Store_save_Inr [OF this] show ?thesis by simp
  qed
  then show "created \<in> set (ratings db')" by simp
next
  fix st
  note c = Rating_create_created [OF assms]
  let ?db1 = "db\<lparr>ratings := ratings db @ [created]\<rparr>"
  assume st: "getStore db created = Some st"
  then have st1: "getStore ?db1 created = Some st"
    by (simp add: getStore_def)
  have id: "ident st = store_id created"
    using find_ident [OF st [unfolded getStore_def]] .
  have rs: "getRatings ?db1 st = getRatings db st @ [created]"
    by (simp add: getRatings_def id)
  obtain a n where an: "rating_stats (map rating (getRatings db st) @ [rating created]) = (a, n)"
    by (cases "rating_stats (map rating (getRatings db st) @ [rating created])")
  let ?st' = "st\<lparr>average_rating := a, total_reviews := n\<rparr>"
  from c(2) st1 have "updateRatingStats ?db1 st = (Inr (), db')"
    by (simp add: afterCreate_def refresh_store_def)
  then have "Store_save ?db1 ?st' = (Inr (), db')"
    by (simp add: updateRatingStats_def rs an)
  from Store_save_Inr [OF this]
  have "stores db' = map (\<lambda>x. if ident x = store_id created then ?st' else x) (stores db)"
    by (simp add: id)
  then have "find (\<lambda>s. ident s = store_id created) (stores db') = Some ?st'"
    using find_map_replace [OF st [unfolded getStore_def], of ?st'] id by simp
  moreover have "n = int (length (getRatings db st)) + 1"
    using rating_stats_total [of "map rating (getRatings db st) @ [rating created]"] an by simp
  moreover have "rating created = given_rating v"
    by (simp add: c(1) Rating_build_def)
  ultimately show "\<exists>st'. find (\<lambda>s. ident s = store_id created) (stores db') = Some st' \<and>
           total_reviews st' = int (length (getRatings db st)) + 1 \<and>
           average_rating st' =
             fst (rating_stats (map rating (getRatings db st) @ [given_rating v]))"
    using an by (intro exI [of _ ?st']) simp
qed

text \<open>A second review of the store of the examples, created from its user, store and
  rating alone.\<close>

theorem create_is_approved_and_counted_witness:
  "\<exists>created db'.
     Rating_create \<lparr>stores = [cafe\<lparr>average_rating := 5, total_reviews := 1\<rparr>],
                    ratings = [review_of 1 7 5]\<rparr> (rate 8 3) = (Inr created, db') \<and>
     is_approved created \<and> created \<in> set (ratings db') \<and>
     (\<exists>st'. find (\<lambda>s. ident s = store_id created) (stores db') = Some st' \<and>
        total_reviews st' = 2 \<and> average_rating st' = 4)"
proof -
  let ?cafe = "cafe\<lparr>average_rating := 5, total_reviews := 1\<rparr>"
  let ?db = "\<lparr>stores = [?cafe], ratings = [review_of 1 7 5]\<rparr>"
  let ?new = "review_of 2 8 3"
  let ?db' = "snd (Rating_create ?db (rate 8 3))"
  have "fst (Rating_create ?db (rate 8 3)) = Inr ?new"
    by code_simp
  then have run: "Rating_create ?db (rate 8 3) = (Inr ?new, ?db')"
    by (metis prod.collapse)
  have g: "given_is_approved (rate 8 3) = None"
    by (simp add: rate_def)
  have st: "getStore ?db ?new = Some ?cafe"
    by code_simp
  have n: "int (length (getRatings ?db ?cafe)) + 1 = 2"
    by code_simp
  have a: "fst (rating_stats (map rating (getRatings ?db ?cafe) @ [given_rating (rate 8 3)])) = 4"
    by code_simp
  note T = create_is_approved_and_counted [OF run]
  from T g have 1: "is_approved ?new" by blast
  from T have 2: "?new \<in> set (ratings ?db')" by blast
  from T st obtain st' where
    "find (\<lambda>s. ident s = store_id ?new) (stores ?db') = Some st'"
    "total_reviews st' = int (length (getRatings ?db ?cafe)) + 1"
    "average_rating st' =
       fst (rating_stats (map rating (getRatings ?db ?cafe) @ [given_rating (rate 8 3)]))"
    by blast
  then have 3: "\<exists>st'. find (\<lambda>s. ident s = store_id ?new) (stores ?db') = Some st' \<and>
        total_reviews st' = 2 \<and> average_rating st' = 4"
    unfolding n a by blast
  from run 1 2 3 show ?thesis by blast
qed

subsection \<open>Rating.prototype.addReply\<close>









section \<open>The review controller\<close>

subsection \<open>updateStoreRating\<close>

lemma try_keeps: "updateStoreRating_try f c storeId = (Inl e, c') \<Longrightarrow> c' = c"
  by (auto simp: updateStoreRating_try_def Review_find_def Store_findByIdAndUpdate_def
      split: if_splits prod.splits sum.splits)

lemma try_rejects:
  "find_rejects f \<or> update_rejects f \<Longrightarrow> \<exists>e. updateStoreRating_try f c storeId = (Inl e, c)"
  by (auto simp: updateStoreRating_try_def Review_find_def Store_findByIdAndUpdate_def
      split: if_splits prod.splits sum.splits)

lemma updateStoreRating_Reviews [simp]:
  "Reviews (snd (updateStoreRating f c storeId)) = Reviews c"
  by (auto simp: updateStoreRating_def updateStoreRating_try_def Review_find_def
      Store_findByIdAndUpdate_def split: if_splits prod.splits sum.splits)

lemma updateStoreRating_returns [simp]: "fst (updateStoreRating f c storeId) = Inr ()"
  by (auto simp: updateStoreRating_def split: prod.splits sum.splits)

text \<open>
  Claim C9. An error raised while \<open>updateStoreRating\<close> recomputes is caught and written
  to the console: the function returns normally whatever the storage does, so the error
  is not surfaced to its caller. When a storage call rejects, nothing is written: the
  documents, the store's averageRating and totalReviews among them, stay as they were.
\<close>

theorem updateStoreRating_swallows:
  "fst (updateStoreRating f c storeId) = Inr () \<and>
   (find_rejects f \<or> update_rejects f \<longrightarrow>
      (\<exists>e. updateStoreRating_try f c storeId = (Inl e, c) \<and>
           updateStoreRating f c storeId = (Inr (), c\<lparr>console := console c @ [e]\<rparr>)))"
proof (intro conjI impI)
  show "fst (updateStoreRating f c storeId) = Inr ()" by simp
next
  assume "find_rejects f \<or> update_rejects f"
  then obtain e where e: "updateStoreRating_try f c storeId = (Inl e, c)"
    using try_rejects by blast
  then have "updateStoreRating f c storeId = (Inr (), c\<lparr>console := console c @ [e]\<rparr>)"
    by (simp add: updateStoreRating_def)
  with e show "\<exists>e. updateStoreRating_try f c storeId = (Inl e, c) \<and>
           updateStoreRating f c storeId = (Inr (), c\<lparr>console := console c @ [e]\<rparr>)"
    by blast
qed

text \<open>
  The claim as stated fails: with a \<open>Review.find\<close> that rejects, the body of the \<open>try\<close>
  block ends in an error, yet \<open>updateStoreRating\<close> returns normally and \<open>addReview\<close>
  answers 201; the new review is stored and the store keeps the average 4 and the
  total 1.
\<close>

theorem updateStoreRating_error_lost:
  "updateStoreRating_try find_fails one_review 1 = (Inl (StorageError ''Review.find''), one_review) \<and>
   fst (updateStoreRating find_fails one_review 1) = Inr () \<and>
   addReview any_doc find_fails one_review [] (new_review 8 1 2 None None None)
     = ((201, ''Review added successfully''),
        \<lparr>Stores = [shop],
         Reviews = [doc_of 1 7 4 (Some ''Great''), doc_of 2 8 2 None],
         console = [StorageError ''Review.find'']\<rparr>) \<and>
   averageRating shop = 4 \<and> totalReviews shop = 1"
  by code_simp

text \<open>The same run, by the theorem.\<close>

theorem updateStoreRating_swallows_witness:
  "fst (updateStoreRating find_fails one_review 1) = Inr () \<and>
   (\<exists>e. updateStoreRating_try find_fails one_review 1 = (Inl e, one_review) \<and>
        updateStoreRating find_fails one_review 1
          = (Inr (), one_review\<lparr>console := console one_review @ [e]\<rparr>))"
  using updateStoreRating_swallows [of find_fails one_review 1]
  by (simp add: find_fails_def)

subsection \<open>updateReview\<close>

lemma updateReview_found:
  assumes "Review_findById c reviewId = Some review"
  shows "updateReview schema f c errors userId reviewId body =
     (if user review \<noteq> userId
      then ((403, ''Access denied. You can only update your own reviews.''), c)
      else if errors \<noteq> [] then ((400, ''Validation errors''), c)
      else (case Review_save schema c
                       (review\<lparr>rating := or_number (body_rating body) (rating review),
                               title := or_string (body_title body) (title review),
                               comment := or_string (body_comment body) (comment review),
                               images := or_array (body_images body) (images review)\<rparr>) of
                  (Inl e, c') \<Rightarrow> ((500, ''Server Error''), c')
                | (Inr updatedReview, c') \<Rightarrow>
                    ((200, ''Review updated successfully''),
                     snd (updateStoreRating f c' (store review)))))"
proof -
  have *: "(case updateStoreRating f c1 k of
             (Inl e, c'') \<Rightarrow> ((500, ''Server Error''), c'')
           | (Inr u, c'') \<Rightarrow> ((200, ''Review updated successfully''), c''))
        = ((200, ''Review updated successfully''), snd (updateStoreRating f c1 k))" for c1 k
    using updateStoreRating_returns [of f c1 k]
    by (cases "updateStoreRating f c1 k") (simp split: sum.splits)
  show ?thesis
    unfolding updateReview_def assms option.case * ..
qed

text \<open>
  Claim C7. For every existing review: an edit by its owner that passes the request
  validators and the schema is answered 200; and in every edit that is answered 200, a
  field the request gives with a truthy value (a rating other than 0, a non-empty title
  or comment, any array of images) is applied; a field the request omits, or gives as 0
  or as the empty string, keeps its prior value; the reply, the user, the store, the
  votes and the key of the review and every other review are unchanged.
\<close>

theorem updateReview_partial:
  assumes found: "Review_findById c reviewId = Some review"
  shows "(user review = userId \<and> errors = [] \<and>
          accepts schema (review\<lparr>rating := or_number (body_rating body) (rating review),
                         title := or_string (body_title body) (title review),
                         comment := or_string (body_comment body) (comment review),
                         images := or_array (body_images body) (images review)\<rparr>) \<longrightarrow>
          fst (updateReview schema f c errors userId reviewId body)
            = (200, ''Review updated successfully'')) \<and>
         (updateReview schema f c errors userId reviewId body = ((200, msg), c') \<longrightarrow>
          (\<exists>updated. Review_findById c' reviewId = Some updated \<and>
             rating updated = (case body_rating body of None \<Rightarrow> rating review
                               | Some n \<Rightarrow> if n = 0 then rating review else n) \<and>
             title updated = (case body_title body of None \<Rightarrow> title review
                              | Some s \<Rightarrow> if s = [] then title review else Some s) \<and>
             comment updated = (case body_comment body of None \<Rightarrow> comment review
                                | Some s \<Rightarrow> if s = [] then comment review else Some s) \<and>
             images updated = (case body_images body of None \<Rightarrow> images review
                               | Some xs \<Rightarrow> xs) \<and>
             reply updated = reply review \<and> user updated = user review \<and>
             store updated = store review \<and> helpfulVotes updated = helpfulVotes review \<and>
             ident updated = ident review \<and>
             filter (\<lambda>r. ident r \<noteq> reviewId) (Reviews c')
               = filter (\<lambda>r. ident r \<noteq> reviewId) (Reviews c)))"
proof (intro conjI impI)
  define d where "d = review\<lparr>rating := or_number (body_rating body) (rating review),
                               title := or_string (body_title body) (title review),
                               comment := or_string (body_comment body) (comment review),
                               images := or_array (body_images body) (images review)\<rparr>"
  note eq = updateReview_found [OF found, of schema f errors userId body, folded d_def]
  assume "user review = userId \<and> errors = [] \<and>
          accepts schema (review\<lparr>rating := or_number (body_rating body) (rating review),
                         title := or_string (body_title body) (title review),
                         comment := or_string (body_comment body) (comment review),
                         images := or_array (body_images body) (images review)\<rparr>)"
  then have "user review = userId" "errors = []" "accepts schema d"
    by (simp_all add: d_def)
  then show "fst (updateReview schema f c errors userId reviewId body)
            = (200, ''Review updated successfully'')"
    unfolding eq by (simp add: Review_save_def)
next
  define d where "d = review\<lparr>rating := or_number (body_rating body) (rating review),
                               title := or_string (body_title body) (title review),
                               comment := or_string (body_comment body) (comment review),
                               images := or_array (body_images body) (images review)\<rparr>"
  assume ok: "updateReview schema f c errors userId reviewId body = ((200, msg), c')"
  have id: "ident d = reviewId"
    using find_ident [OF found [unfolded Review_findById_def]] by (simp add: d_def)
  note eq = updateReview_found [OF found, of schema f errors userId body, folded d_def]
  have status: "fst (fst (updateReview schema f c errors userId reviewId body)) = 200"
    using ok by simp
  have u: "user review = userId"
    using status unfolding eq by (rule_tac ccontr) simp
  have v: "errors = []"
    using status u unfolding eq by (rule_tac ccontr) simp
  have w: "accepts schema d"
    using status u v unfolding eq by (rule_tac ccontr) (simp add: Review_save_def)
  have "c' = snd (updateStoreRating f
                    (c\<lparr>Reviews := map (\<lambda>r. if ident r = ident d then d else r) (Reviews c)\<rparr>)
                    (store review))"
    using ok u v w unfolding eq by (simp add: Review_save_def)
  then have R: "Reviews c' = map (\<lambda>r. if ident r = reviewId then d else r) (Reviews c)"
    by (simp add: id)
  have "Review_findById c' reviewId = Some d"
    using find_map_replace [OF found [unfolded Review_findById_def] id]
    by (simp add: Review_findById_def R)
  moreover have "filter (\<lambda>r. ident r \<noteq> reviewId) (Reviews c')
      = filter (\<lambda>r. ident r \<noteq> reviewId) (Reviews c)"
    using id by (simp add: R filter_map_replace)
  moreover have "rating d = (case body_rating body of None \<Rightarrow> rating review
                       | Some n \<Rightarrow> if n = 0 then rating review else n)"
    by (simp add: d_def or_number_def)
  moreover have "title d = (case body_title body of None \<Rightarrow> title review
                      | Some s \<Rightarrow> if s = [] then title review else Some s)"
    by (simp add: d_def or_string_def)
  moreover have "comment d = (case body_comment body of None \<Rightarrow> comment review
                        | Some s \<Rightarrow> if s = [] then comment review else Some s)"
    by (simp add: d_def or_string_def)
  moreover have "images d = (case body_images body of None \<Rightarrow> images review | Some xs \<Rightarrow> xs)"
    by (simp add: d_def or_array_def)
  moreover have "reply d = reply review \<and> user d = user review \<and>
     store d = store review \<and> helpfulVotes d = helpfulVotes review \<and> ident d = ident review"
    by (simp add: d_def)
  ultimately show "\<exists>updated. Review_findById c' reviewId = Some updated \<and>
             rating updated = (case body_rating body of None \<Rightarrow> rating review
                               | Some n \<Rightarrow> if n = 0 then rating review else n) \<and>
             title updated = (case body_title body of None \<Rightarrow> title review
                              | Some s \<Rightarrow> if s = [] then title review else Some s) \<and>
             comment updated = (case body_comment body of None \<Rightarrow> comment review
                                | Some s \<Rightarrow> if s = [] then comment review else Some s) \<and>
             images updated = (case body_images body of None \<Rightarrow> images review
                               | Some xs \<Rightarrow> xs) \<and>
             reply updated = reply review \<and> user updated = user review \<and>
             store updated = store review \<and> helpfulVotes updated = helpfulVotes review \<and>
             ident updated = ident review \<and>
             filter (\<lambda>r. ident r \<noteq> reviewId) (Reviews c')
               = filter (\<lambda>r. ident r \<noteq> reviewId) (Reviews c)"
    by blast
qed

text \<open>
  The claim as stated fails for a field that is provided but falsy: an edit whose title
  is the empty string is answered 200 and the title stays \<open>"Great"\<close>.
\<close>

theorem updateReview_empty_title_kept:
  "updateReview any_doc no_faults one_review [] 7 1
     \<lparr>body_rating = None, body_title = Some [], body_comment = None, body_images = None\<rparr>
     = ((200, ''Review updated successfully''), one_review) \<and>
   map title (Reviews one_review) = [Some ''Great'']"
  by code_simp

text \<open>An edit that gives a rating and a comment and omits the title and the images.\<close>

theorem updateReview_partial_witness:
  "fst (updateReview any_doc no_faults one_review [] 7 1
          \<lparr>body_rating = Some 5, body_title = None, body_comment = Some ''Even better'',
           body_images = None\<rparr>) = (200, ''Review updated successfully'') \<and>
   (\<exists>updated. Review_findById
       (snd (updateReview any_doc no_faults one_review [] 7 1
          \<lparr>body_rating = Some 5, body_title = None, body_comment = Some ''Even better'',
           body_images = None\<rparr>)) 1 = Some updated \<and>
     rating updated = 5 \<and> title updated = Some ''Great'' \<and>
     comment updated = Some ''Even better'' \<and> images updated = [] \<and> reply updated = None \<and>
     user updated = 7 \<and> store updated = 1 \<and> helpfulVotes updated = 0 \<and> ident updated = 1)"
proof -
  let ?body = "\<lparr>body_rating = Some 5, body_title = None, body_comment = Some ''Even better'',
           body_images = None\<rparr>"
  let ?review = "doc_of 1 7 4 (Some ''Great'')"
  let ?c' = "snd (updateReview any_doc no_faults one_review [] 7 1 ?body)"
  have found: "Review_findById one_review 1 = Some ?review"
    by code_simp
  have own: "user ?review = 7"
    by (simp add: doc_of_def)
  note T = updateReview_partial [OF found, where userId = 7 and errors = "[]"
      and schema = any_doc and body = ?body and f = no_faults
      and msg = "''Review updated successfully''" and c' = ?c']
  from T own have 1: "fst (updateReview any_doc no_faults one_review [] 7 1 ?body)
      = (200, ''Review updated successfully'')"
    by (simp add: any_doc_def)
  then have ok: "updateReview any_doc no_faults one_review [] 7 1 ?body
      = ((200, ''Review updated successfully''), ?c')"
    by (metis prod.collapse)
  from T ok have "\<exists>updated. Review_findById ?c' 1 = Some updated \<and>
     rating updated = 5 \<and> title updated = Some ''Great'' \<and>
     comment updated = Some ''Even better'' \<and> images updated = [] \<and> reply updated = None \<and>
     user updated = 7 \<and> store updated = 1 \<and> helpfulVotes updated = 0 \<and> ident updated = 1"
    by (simp add: doc_of_def) blast
  with 1 show ?thesis by blast
qed

subsection \<open>addReply\<close>






section \<open>One review for a user and a store\<close>

lemma filter_update_count:
  "i < length xs \<Longrightarrow>
   length (filter P (xs[i := x])) + (if P (xs ! i) then 1 else 0)
   = length (filter P xs) + (if P x then 1 else (0::nat))"
proof -
  assume i: "i < length xs"
  have "length (filter P xs) =
      length (filter P (take i xs)) + (if P (xs ! i) then 1 else 0)
      + length (filter P (drop (Suc i) xs))"
    by (subst id_take_nth_drop [OF i]) simp
  moreover have "length (filter P (xs[i := x])) =
      length (filter P (take i xs)) + (if P x then 1 else 0)
      + length (filter P (drop (Suc i) xs))"
    by (subst upd_conv_take_nth_drop [OF i]) simp
  ultimately show ?thesis by simp
qed

lemma list_all_update:
  "list_all P xs \<Longrightarrow> P x \<Longrightarrow> list_all P (xs[i := x])"
  unfolding list_all_iff using set_update_subset_insert [of xs i x] by auto

lemma list_ex_update:
  "list_ex P (xs[i := x]) \<Longrightarrow> list_ex P xs \<or> P x"
  unfolding list_ex_iff using set_update_subset_insert [of xs i x] by auto

lemma findOne_pair_rows:
  "Review_findOne c u s = None \<longleftrightarrow> pair_rows c u s = []"
  by (auto simp: Review_findOne_def pair_rows_def find_None_iff filter_empty_conv)

lemma list_ex_pair_rows:
  "list_ex (\<lambda>r. user r = u \<and> store r = s) (Reviews c) \<longleftrightarrow> pair_rows c u s \<noteq> []"
  by (simp add: pair_rows_def list_ex_iff filter_empty_conv)

lemma advance_Start:
  "advance schema c (doc, Start) =
     (if pair_rows c (user doc) (store doc) \<noteq> [] then (c, (doc, Done duplicate_review)) else (c, (doc, Looked)))"
  by (simp add: advance_def findOne_pair_rows)

lemma advance_Looked_free:
  "accepts schema doc \<Longrightarrow> pair_rows c (user doc) (store doc) = [] \<Longrightarrow>
   advance schema c (doc, Looked) =
     (c\<lparr>Reviews := Reviews c @ [doc\<lparr>ident := new_ident (map ident (Reviews c))\<rparr>]\<rparr>,
      (doc, Done review_added))"
  by (simp add: advance_def Review_create_def unique_user_store_def list_ex_pair_rows Let_def)

lemma advance_Looked:
  "accepts schema doc \<Longrightarrow> unique_index schema \<Longrightarrow>
   advance schema c (doc, Looked) =
     (if pair_rows c (user doc) (store doc) \<noteq> [] then (c, (doc, Done server_error))
      else (c\<lparr>Reviews := Reviews c @ [doc\<lparr>ident := new_ident (map ident (Reviews c))\<rparr>]\<rparr>,
            (doc, Done review_added)))"
  by (simp add: advance_def Review_create_def unique_user_store_def list_ex_pair_rows Let_def)

lemma advance_Done: "advance schema c (doc, Done status) = (c, (doc, Done status))"
  by (simp add: advance_def)

lemma advance_Reviews:
  "unique_index schema \<Longrightarrow>
   Reviews (fst (advance schema c s)) = Reviews c \<or>
   (\<not> list_ex (\<lambda>r. user r = user (fst s) \<and> store r = store (fst s)) (Reviews c) \<and>
    (\<exists>k. Reviews (fst (advance schema c s)) = Reviews c @ [(fst s)\<lparr>ident := k\<rparr>]))"
  by (cases s; cases "snd s")
     (auto simp: advance_def Review_create_def unique_user_store_def Let_def
        split: prod.splits sum.splits)

lemma advance_keeps_unique:
  assumes "one_review_per_pair c" and idx: "unique_index schema"
  shows "one_review_per_pair (fst (advance schema c s))"
proof -
  from advance_Reviews [OF idx, of c s] show ?thesis
  proof
    assume "Reviews (fst (advance schema c s)) = Reviews c"
    with assms(1) show ?thesis by (simp add: one_review_per_pair_def)
  next
    assume "\<not> list_ex (\<lambda>r. user r = user (fst s) \<and> store r = store (fst s)) (Reviews c) \<and>
      (\<exists>k. Reviews (fst (advance schema c s)) = Reviews c @ [(fst s)\<lparr>ident := k\<rparr>])"
    then obtain k where free: "\<not> list_ex (\<lambda>r. user r = user (fst s) \<and> store r = store (fst s)) (Reviews c)"
      and R: "Reviews (fst (advance schema c s)) = Reviews c @ [(fst s)\<lparr>ident := k\<rparr>]"
      by blast
    from free have "(user (fst s), store (fst s)) \<notin> set (map (\<lambda>r. (user r, store r)) (Reviews c))"
      by (auto simp: list_ex_iff)
    with assms(1) show ?thesis
      by (simp add: one_review_per_pair_def R)
  qed
qed

lemma step_at_unfold:
  "step_at schema (c, calls) i =
     (if i < length calls
      then (fst (advance schema c (calls ! i)), calls[i := snd (advance schema c (calls ! i))])
      else (c, calls))"
  by (simp add: step_at_def split: prod.splits)

lemma step_keeps_unique:
  "unique_index schema \<Longrightarrow> one_review_per_pair (fst state) \<Longrightarrow>
   one_review_per_pair (fst (step_at schema state i))"
  by (cases state) (simp add: step_at_unfold advance_keeps_unique)

lemma run_keeps_unique:
  "unique_index schema \<Longrightarrow> one_review_per_pair (fst state) \<Longrightarrow>
   one_review_per_pair (fst (run schema schedule state))"
  unfolding run_def
  by (induction schedule arbitrary: state) (simp_all add: step_keeps_unique)

lemma race_inv_update:
  assumes inv: "race_inv u s schema (c, calls)"
    and i: "i < length calls"
    and doc: "user doc = u" "store doc = s" "accepts schema doc"
    and old: "snd (calls ! i) \<noteq> Done review_added"
    and new: "p = Looked \<or> p = Done duplicate_review \<or> p = Done server_error"
    and rows: "p = Done duplicate_review \<or> p = Done server_error \<Longrightarrow> pair_rows c u s \<noteq> []"
  shows "race_inv u s schema (c, calls[i := (doc, p)])"
proof -
  let ?won = "\<lambda>x :: submit. snd x = Done review_added"
  from inv have a: "same_pair_calls u s schema calls"
    and b: "answered review_added calls = length (pair_rows c u s)"
    and c: "length (pair_rows c u s) \<le> 1"
    and d: "list_ex (\<lambda>x. snd x = Done duplicate_review \<or> snd x = Done server_error) calls \<Longrightarrow> pair_rows c u s \<noteq> []"
    and e: "list_all (\<lambda>x. snd x = Start \<or> snd x = Looked \<or> snd x = Done review_added \<or>
                          snd x = Done duplicate_review \<or> snd x = Done server_error) calls"
    by (simp_all add: race_inv_def)
  have a': "same_pair_calls u s schema (calls[i := (doc, p)])"
    using a doc unfolding same_pair_calls_def by (intro list_all_update) simp_all
  have "\<not> ?won (doc, p)" using new by auto
  with filter_update_count [OF i, of ?won "(doc, p)"] old
  have b': "answered review_added (calls[i := (doc, p)]) = answered review_added calls"
    by (simp add: answered_def)
  have d': "pair_rows c u s \<noteq> []"
    if "list_ex (\<lambda>x. snd x = Done duplicate_review \<or> snd x = Done server_error) (calls[i := (doc, p)])"
    using list_ex_update [OF that] d rows by auto
  have e': "list_all (\<lambda>x. snd x = Start \<or> snd x = Looked \<or> snd x = Done review_added \<or>
                          snd x = Done duplicate_review \<or> snd x = Done server_error) (calls[i := (doc, p)])"
    using e new by (intro list_all_update) auto
  show ?thesis
    using a' b b' c d' e' by (simp add: race_inv_def)
qed

lemma race_inv_insert:
  assumes inv: "race_inv u s schema (c, calls)"
    and i: "i < length calls"
    and doc: "user doc = u" "store doc = s" "accepts schema doc"
    and old: "snd (calls ! i) \<noteq> Done review_added"
    and free: "pair_rows c u s = []"
  shows "race_inv u s schema
           (c\<lparr>Reviews := Reviews c @ [doc\<lparr>ident := k\<rparr>]\<rparr>, calls[i := (doc, Done review_added)])"
proof -
  let ?won = "\<lambda>x :: submit. snd x = Done review_added"
  let ?c' = "c\<lparr>Reviews := Reviews c @ [doc\<lparr>ident := k\<rparr>]\<rparr>"
  from inv have a: "same_pair_calls u s schema calls"
    and b: "answered review_added calls = length (pair_rows c u s)"
    and e: "list_all (\<lambda>x. snd x = Start \<or> snd x = Looked \<or> snd x = Done review_added \<or>
                          snd x = Done duplicate_review \<or> snd x = Done server_error) calls"
    by (simp_all add: race_inv_def)
  have a': "same_pair_calls u s schema (calls[i := (doc, Done review_added)])"
    using a doc unfolding same_pair_calls_def by (intro list_all_update) simp_all
  have rows': "pair_rows ?c' u s = [doc\<lparr>ident := k\<rparr>]"
    using free doc by (simp add: pair_rows_def)
  from filter_update_count [OF i, of ?won "(doc, Done review_added)"] old
  have "answered review_added (calls[i := (doc, Done review_added)]) = answered review_added calls + 1"
    by (simp add: answered_def)
  with b free have b': "answered review_added (calls[i := (doc, Done review_added)]) = 1"
    by simp
  have e': "list_all (\<lambda>x. snd x = Start \<or> snd x = Looked \<or> snd x = Done review_added \<or>
                          snd x = Done duplicate_review \<or> snd x = Done server_error) (calls[i := (doc, Done review_added)])"
    using e by (intro list_all_update) auto
  show ?thesis
    using a' b' e' by (simp add: race_inv_def rows')
qed

lemma step_keeps_race_inv:
  assumes inv: "race_inv u s schema (c, calls)" and idx: "unique_index schema"
  shows "race_inv u s schema (step_at schema (c, calls) i)"
proof (cases "i < length calls")
  case False
  with inv show ?thesis by (simp add: step_at_unfold)
next
  case i: True
  obtain doc p where call: "calls ! i = (doc, p)"
    by (cases "calls ! i")
  from inv have "same_pair_calls u s schema calls"
    and allowed: "list_all (\<lambda>x. snd x = Start \<or> snd x = Looked \<or> snd x = Done review_added \<or>
                          snd x = Done duplicate_review \<or> snd x = Done server_error) calls"
    by (simp_all add: race_inv_def)
  with i call have doc: "user doc = u" "store doc = s" "accepts schema doc"
    and p: "p = Start \<or> p = Looked \<or> p = Done review_added \<or> p = Done duplicate_review \<or> p = Done server_error"
    unfolding same_pair_calls_def list_all_length by force+
  consider (start) "p = Start" | (looked) "p = Looked" | (answered) status where "p = Done status"
    using p by blast
  then show ?thesis
  proof cases
    case start
    show ?thesis
    proof (cases "pair_rows c u s = []")
      case True
      have "race_inv u s schema (c, calls[i := (doc, Looked)])"
        using inv i doc by (rule race_inv_update) (simp_all add: call start)
      then show ?thesis
        using i True doc by (simp add: step_at_unfold call start advance_Start)
    next
      case False
      have "race_inv u s schema (c, calls[i := (doc, Done duplicate_review)])"
        using inv i doc by (rule race_inv_update) (simp_all add: call start False)
      then show ?thesis
        using i False doc by (simp add: step_at_unfold call start advance_Start)
    qed
  next
    case looked
    show ?thesis
    proof (cases "pair_rows c u s = []")
      case True
      have "race_inv u s schema
              (c\<lparr>Reviews := Reviews c @ [doc\<lparr>ident := new_ident (map ident (Reviews c))\<rparr>]\<rparr>,
               calls[i := (doc, Done review_added)])"
        using inv i doc by (rule race_inv_insert) (simp_all add: call looked True)
      then show ?thesis
        using i True doc idx by (simp add: step_at_unfold call looked advance_Looked)
    next
      case False
      have "race_inv u s schema (c, calls[i := (doc, Done server_error)])"
        using inv i doc by (rule race_inv_update) (simp_all add: call looked False)
      then show ?thesis
        using i False doc idx by (simp add: step_at_unfold call looked advance_Looked)
    qed
  next
    case answered
    have "calls[i := (doc, Done status)] = calls"
      using call answered by (metis list_update_id)
    with inv show ?thesis
      using i by (simp add: step_at_unfold call answered advance_Done)
  qed
qed

lemma run_keeps_race_inv:
  "unique_index schema \<Longrightarrow> race_inv u s schema state \<Longrightarrow>
   race_inv u s schema (run schema schedule state)"
  unfolding run_def
proof (induction schedule arbitrary: state)
  case Nil
  then show ?case by simp
next
  case (Cons i schedule)
  obtain c calls where state: "state = (c, calls)" by (cases state)
  from Cons.prems have "race_inv u s schema (step_at schema state i)"
    unfolding state by (intro step_keeps_race_inv)
  from Cons.IH [OF Cons.prems(1) this] show ?case by simp
qed

lemma race_inv_start:
  assumes "same_pair_calls u s schema calls" "not_started calls" "pair_rows c u s = []"
  shows "race_inv u s schema (c, calls)"
proof -
  have "filter (\<lambda>x. snd x = Done review_added) calls = []"
    using assms(2) by (auto simp: not_started_def list_all_iff filter_empty_conv)
  moreover have "\<not> list_ex (\<lambda>x. snd x = Done duplicate_review \<or> snd x = Done server_error) calls"
    using assms(2) by (auto simp: not_started_def list_all_iff list_ex_iff)
  moreover have "list_all (\<lambda>x. snd x = Start \<or> snd x = Looked \<or> snd x = Done review_added \<or>
                          snd x = Done duplicate_review \<or> snd x = Done server_error) calls"
    using assms(2) by (auto simp: not_started_def list_all_iff)
  ultimately show ?thesis
    using assms(1,3) by (simp add: race_inv_def answered_def)
qed

lemma answered_partition:
  "list_all (\<lambda>x. snd x = Done review_added \<or> snd x = Done duplicate_review \<or>
                  snd x = Done server_error) calls \<Longrightarrow>
   length calls
   = answered review_added calls + answered duplicate_review calls + answered server_error calls"
  by (induction calls) (auto simp: answered_def)

lemma race_inv_finished:
  assumes inv: "race_inv u s schema (c, calls)" and fin: "finished calls" and ne: "calls \<noteq> []"
  shows "answered review_added calls = 1 \<and>
         answered duplicate_review calls + answered server_error calls = length calls - 1 \<and>
         length (pair_rows c u s) = 1"
proof -
  from inv have b: "answered review_added calls = length (pair_rows c u s)"
    and le: "length (pair_rows c u s) \<le> 1"
    and d: "list_ex (\<lambda>x. snd x = Done duplicate_review \<or> snd x = Done server_error) calls \<Longrightarrow> pair_rows c u s \<noteq> []"
    and e: "list_all (\<lambda>x. snd x = Start \<or> snd x = Looked \<or> snd x = Done review_added \<or>
                          snd x = Done duplicate_review \<or> snd x = Done server_error) calls"
    by (simp_all add: race_inv_def)
  from ne obtain x where x: "x \<in> set calls" by (cases calls) auto
  with fin e have "snd x = Done review_added \<or> snd x = Done duplicate_review \<or> snd x = Done server_error"
    by (auto simp: finished_def list_all_iff)
  then have "pair_rows c u s \<noteq> []"
  proof
    assume "snd x = Done review_added"
    with x have "filter (\<lambda>x. snd x = Done review_added) calls \<noteq> []"
      by (auto simp: filter_empty_conv)
    then show ?thesis using b by (auto simp: answered_def)
  next
    assume "snd x = Done duplicate_review \<or> snd x = Done server_error"
    with x show ?thesis by (intro d) (auto simp: list_ex_iff)
  qed
  then have one: "length (pair_rows c u s) = 1"
    using le by (cases "pair_rows c u s") auto
  from fin e
  have "list_all (\<lambda>x. snd x = Done review_added \<or> snd x = Done duplicate_review \<or>
                       snd x = Done server_error) calls"
    by (auto simp: finished_def list_all_iff)
  from answered_partition [OF this] b one show ?thesis by simp
qed

lemma step_length: "length (snd (step_at schema state i)) = length (snd state)"
  by (cases state) (simp add: step_at_unfold)

lemma run_length: "length (snd (run schema schedule state)) = length (snd state)"
  unfolding run_def
  by (induction schedule arbitrary: state) (simp_all add: step_length)

subsection \<open>The unique index of the ratings table\<close>

lemma foldl_max_ge: "a \<le> foldl max a xs \<and> (\<forall>x\<in>set xs. x \<le> foldl max a xs)"
  for a :: nat
proof (induction xs arbitrary: a)
  case Nil
  then show ?case by simp
next
  case (Cons y ys)
  from Cons [of "max a y"] show ?case by auto
qed

lemma new_ident_fresh: "new_ident xs \<notin> set xs"
  using foldl_max_ge [of 0 xs] by (auto simp: new_ident_def)

lemma Store_save_ratings: "ratings (snd (Store_save db s)) = ratings db"
  by (cases "Store_validate s") (simp_all add: Store_save_def)

lemma refresh_store_ratings: "ratings (snd (refresh_store db r)) = ratings db"
  by (cases "getStore db r")
     (simp_all add: refresh_store_def updateRatingStats_def Store_save_ratings split: prod.splits)

lemma returning_snd: "snd (returning v saved) = snd saved"
  by (cases saved) (simp add: returning_def split: sum.splits)

lemma Rating_build_pair:
  "user_id (Rating_build db v) = given_user_id v" "store_id (Rating_build db v) = given_store_id v"
  "ident (Rating_build db v) = new_ident (map ident (ratings db))"
  by (simp_all add: Rating_build_def)

lemma unique_for_new:
  "unique_user_store_rating (ratings db) (Rating_build db v) \<longleftrightarrow>
   \<not> list_ex (\<lambda>x. user_id x = given_user_id v \<and> store_id x = given_store_id v) (ratings db)"
proof -
  have "ident x \<noteq> new_ident (map ident (ratings db))" if "x \<in> set (ratings db)" for x
    using new_ident_fresh [of "map ident (ratings db)"] that by force
  then show ?thesis
    by (auto simp: unique_user_store_rating_def list_ex_iff Rating_build_pair)
qed

lemma Rating_create_ratings:
  "ratings (snd (Rating_create db v)) = ratings db \<and> (\<exists>e. fst (Rating_create db v) = Inl e \<and> snd (Rating_create db v) = db) \<or>
   \<not> list_ex (\<lambda>x. user_id x = given_user_id v \<and> store_id x = given_store_id v) (ratings db) \<and>
   ratings (snd (Rating_create db v)) = ratings db @ [Rating_build db v]"
proof (cases "Rating_validate (Rating_build db v)")
  case (Cons msg rest)
  then show ?thesis by (simp add: Rating_create_def)
next
  case Nil
  show ?thesis
  proof (cases "unique_user_store_rating (ratings db) (Rating_build db v)")
    case False
    with Nil show ?thesis by (simp add: Rating_create_def)
  next
    case True
    with Nil have "ratings (snd (Rating_create db v)) = ratings db @ [Rating_build db v]"
      by (simp add: Rating_create_def Let_def returning_snd afterCreate_def refresh_store_ratings)
    with True show ?thesis by (simp add: unique_for_new)
  qed
qed

lemma Rating_create_keeps_unique:
  assumes "one_rating_per_pair db"
  shows "one_rating_per_pair (snd (Rating_create db v))"
proof -
  from Rating_create_ratings [of db v] show ?thesis
  proof (elim disjE conjE)
    assume "ratings (snd (Rating_create db v)) = ratings db"
    with assms show ?thesis by (simp add: one_rating_per_pair_def)
  next
    assume free: "\<not> list_ex (\<lambda>x. user_id x = given_user_id v \<and> store_id x = given_store_id v) (ratings db)"
      and R: "ratings (snd (Rating_create db v)) = ratings db @ [Rating_build db v]"
    from free have "(given_user_id v, given_store_id v) \<notin> set (map (\<lambda>r. (user_id r, store_id r)) (ratings db))"
      by (auto simp: list_ex_iff)
    with assms show ?thesis
      by (simp add: one_rating_per_pair_def R Rating_build_pair)
  qed
qed

lemma Rating_create_duplicate:
  assumes "list_ex (\<lambda>x. user_id x = given_user_id v \<and> store_id x = given_store_id v) (ratings db)"
  shows "Rating_create db v =
    (Inl (case Rating_validate (Rating_build db v) of
            [] \<Rightarrow> UniqueConstraintError ''unique_user_store_rating''
          | msg # _ \<Rightarrow> ValidationError msg), db)"
  using assms
  by (cases "Rating_validate (Rating_build db v)")
     (simp_all add: Rating_create_def Let_def unique_for_new)

subsection \<open>addReview, alone and interleaved\<close>

lemma addReview_unfold:
  "addReview schema f c errors doc =
     (if errors \<noteq> [] then ((400, ''Validation errors''), c)
      else if Store_findById c (store doc) = None then ((404, ''Store not found''), c)
      else if pair_rows c (user doc) (store doc) \<noteq> []
      then ((400, ''You have already reviewed this store''), c)
      else if \<not> accepts schema doc then ((500, ''Server Error''), c)
      else ((201, ''Review added successfully''),
            snd (updateStoreRating f
                   (c\<lparr>Reviews := Reviews c @ [doc\<lparr>ident := new_ident (map ident (Reviews c))\<rparr>]\<rparr>)
                   (store doc))))"
proof -
  have *: "(case updateStoreRating f c1 k of
             (Inl e, c'') \<Rightarrow> ((500 :: nat, ''Server Error''), c'')
           | (Inr u, c'') \<Rightarrow> ((201, ''Review added successfully''), c''))
        = ((201, ''Review added successfully''), snd (updateStoreRating f c1 k))" for c1 k
    using updateStoreRating_returns [of f c1 k]
    by (cases "updateStoreRating f c1 k") (simp split: sum.splits)
  show ?thesis
    unfolding addReview_def
    by (simp add: findOne_pair_rows Review_create_def unique_user_store_def list_ex_pair_rows
        Let_def *)
qed

lemma addReview_keeps_unique:
  assumes "one_review_per_pair c"
  shows "one_review_per_pair (snd (addReview schema f c errors doc))"
proof -
  have "(user doc, store doc) \<notin> set (map (\<lambda>r. (user r, store r)) (Reviews c))"
    if "pair_rows c (user doc) (store doc) = []"
    using that by (auto simp: pair_rows_def filter_empty_conv)
  with assms show ?thesis
    by (simp add: addReview_unfold one_review_per_pair_def)
qed

lemma advance_Looked_invalid:
  "\<not> accepts schema doc \<Longrightarrow> advance schema c (doc, Looked) = (c, (doc, Done server_error))"
  by (simp add: advance_def Review_create_def)

lemma addReview_two_steps:
  assumes "errors = []" and "Store_findById c (store doc) \<noteq> None"
  shows "snd (run schema [0, 0] (c, [(doc, Start)]))
           = [(doc, Done (fst (addReview schema f c errors doc)))] \<and>
         Reviews (snd (addReview schema f c errors doc))
           = Reviews (fst (run schema [0, 0] (c, [(doc, Start)])))"
proof (cases "pair_rows c (user doc) (store doc) = []")
  case False
  then show ?thesis
    using assms
    by (simp add: run_def step_at_unfold advance_Start advance_Done addReview_unfold)
next
  case free: True
  show ?thesis
  proof (cases "accepts schema doc")
    case True
    then show ?thesis
      using assms free
      by (simp add: run_def step_at_unfold advance_Start advance_Looked_free addReview_unfold)
  next
    case False
    then show ?thesis
      using assms free
      by (simp add: run_def step_at_unfold advance_Start advance_Looked_invalid addReview_unfold)
  qed
qed

text \<open>
  Claim C6, as the code has it. In the ratings table, \<open>Rating.create\<close> never makes a
  second row of a user for a store: for a pair that has a row it fails, with the error
  of the index \<open>unique_user_store_rating\<close> when the values are valid, and changes nothing.
  In the controller, a call of \<open>addReview\<close> whose lookup finds a review of the pair is
  answered 400, "You have already reviewed this store", and changes nothing; calls that
  run one after the other keep the reviews free of a repeated pair, whatever the schema
  declares; and a call alone is the lookup followed by the insertion. When the reviews
  have the unique index, every interleaving keeps them free of a repeated pair; and when
  any number of calls for one free pair, with documents the schema accepts, run
  interleaved in any order until all are answered, exactly one is answered 201, every
  other is answered 400 or 500, and the pair has exactly one row.
\<close>

theorem one_review_per_user_and_store:
  "(one_rating_per_pair db \<longrightarrow> one_rating_per_pair (snd (Rating_create db v))) \<and>
   (list_ex (\<lambda>x. user_id x = given_user_id v \<and> store_id x = given_store_id v) (ratings db)
    \<longrightarrow> Rating_create db v =
          (Inl (case Rating_validate (Rating_build db v) of
                  [] \<Rightarrow> UniqueConstraintError ''unique_user_store_rating''
                | msg # _ \<Rightarrow> ValidationError msg), db)) \<and>
   (errors = [] \<and> Store_findById c (store doc) \<noteq> None \<and>
    Review_findOne c (user doc) (store doc) \<noteq> None \<longrightarrow>
      addReview schema f c errors doc = ((400, ''You have already reviewed this store''), c)) \<and>
   (one_review_per_pair c \<longrightarrow> one_review_per_pair (snd (addReview schema f c errors doc))) \<and>
   (errors = [] \<and> Store_findById c (store doc) \<noteq> None \<longrightarrow>
      snd (run schema [0, 0] (c, [(doc, Start)]))
        = [(doc, Done (fst (addReview schema f c errors doc)))] \<and>
      Reviews (snd (addReview schema f c errors doc))
        = Reviews (fst (run schema [0, 0] (c, [(doc, Start)])))) \<and>
   (unique_index schema \<and> one_review_per_pair c \<longrightarrow>
      one_review_per_pair (fst (run schema schedule (c, calls)))) \<and>
   (unique_index schema \<and>
    same_pair_calls userId storeId schema calls \<and> not_started calls \<and> calls \<noteq> [] \<and>
    pair_rows c userId storeId = [] \<and> finished (snd (run schema schedule (c, calls))) \<longrightarrow>
      answered (201, ''Review added successfully'') (snd (run schema schedule (c, calls))) = 1 \<and>
      answered (400, ''You have already reviewed this store'') (snd (run schema schedule (c, calls)))
        + answered (500, ''Server Error'') (snd (run schema schedule (c, calls)))
        = length calls - 1 \<and>
      length (pair_rows (fst (run schema schedule (c, calls))) userId storeId) = 1)"
proof (intro conjI impI)
  assume "one_rating_per_pair db"
  then show "one_rating_per_pair (snd (Rating_create db v))"
    by (rule Rating_create_keeps_unique)
next
  assume "list_ex (\<lambda>x. user_id x = given_user_id v \<and> store_id x = given_store_id v) (ratings db)"
  then show "Rating_create db v =
          (Inl (case Rating_validate (Rating_build db v) of
                  [] \<Rightarrow> UniqueConstraintError ''unique_user_store_rating''
                | msg # _ \<Rightarrow> ValidationError msg), db)"
    by (rule Rating_create_duplicate)
next
  assume "errors = [] \<and> Store_findById c (store doc) \<noteq> None \<and>
    Review_findOne c (user doc) (store doc) \<noteq> None"
  then show "addReview schema f c errors doc = ((400, ''You have already reviewed this store''), c)"
    by (simp add: addReview_unfold findOne_pair_rows)
next
  assume "one_review_per_pair c"
  then show "one_review_per_pair (snd (addReview schema f c errors doc))"
    by (rule addReview_keeps_unique)
next
  assume h: "errors = [] \<and> Store_findById c (store doc) \<noteq> None"
  then have two: "snd (run schema [0, 0] (c, [(doc, Start)]))
        = [(doc, Done (fst (addReview schema f c errors doc)))] \<and>
      Reviews (snd (addReview schema f c errors doc))
        = Reviews (fst (run schema [0, 0] (c, [(doc, Start)])))"
    by (intro addReview_two_steps) simp_all
  from two show "snd (run schema [0, 0] (c, [(doc, Start)]))
        = [(doc, Done (fst (addReview schema f c errors doc)))]" ..
  from two show "Reviews (snd (addReview schema f c errors doc))
        = Reviews (fst (run schema [0, 0] (c, [(doc, Start)])))" ..
next
  assume "unique_index schema \<and> one_review_per_pair c"
  then show "one_review_per_pair (fst (run schema schedule (c, calls)))"
    by (intro run_keeps_unique) simp_all
next
  assume h: "unique_index schema \<and>
    same_pair_calls userId storeId schema calls \<and> not_started calls \<and> calls \<noteq> [] \<and>
    pair_rows c userId storeId = [] \<and> finished (snd (run schema schedule (c, calls)))"
  obtain c' calls' where r: "run schema schedule (c, calls) = (c', calls')"
    by (cases "run schema schedule (c, calls)")
  from h have "race_inv userId storeId schema (c, calls)"
    by (intro race_inv_start) simp_all
  with h have inv: "race_inv userId storeId schema (c', calls')"
    using run_keeps_race_inv [of schema userId storeId "(c, calls)" schedule] r by simp
  have len: "length calls' = length calls"
    using run_length [of schema schedule "(c, calls)"] r by simp
  with h have ne: "calls' \<noteq> []" by auto
  from h r have fin: "finished calls'" by simp
  from race_inv_finished [OF inv fin ne] len
  show "answered (201, ''Review added successfully'') (snd (run schema schedule (c, calls))) = 1"
    and "answered (400, ''You have already reviewed this store'')
             (snd (run schema schedule (c, calls)))
           + answered (500, ''Server Error'') (snd (run schema schedule (c, calls)))
           = length calls - 1"
    and "length (pair_rows (fst (run schema schedule (c, calls))) userId storeId) = 1"
    by (simp_all add: r)
qed

text \<open>
  Two calls of the user 8 for the store 1 run interleaved, and both look the pair up
  before either inserts. With the unique index the second insertion is refused, and its
  call is answered 500, "Server Error", by the \<open>catch\<close> block: not with the error of a
  duplicate review. Without the index both calls are answered 201 and the pair has two
  rows.
\<close>

theorem concurrent_submits_counterexample:
  "map snd (snd (run any_doc [0, 1, 0, 1] (one_review, two_submits)))
     = [Done (201, ''Review added successfully''), Done (500, ''Server Error'')] \<and>
   map snd (snd (run no_index [0, 1, 0, 1] (one_review, two_submits)))
     = [Done (201, ''Review added successfully''), Done (201, ''Review added successfully'')] \<and>
   length (pair_rows (fst (run no_index [0, 1, 0, 1] (one_review, two_submits))) 8 1) = 2"
  by code_simp

text \<open>
  The user 7 has reviewed the store 1 and submits again, to either layer; the user 8
  submits a first review to reviews that have no index; and two calls of the user 8 for
  the store 1 run interleaved on reviews that have the index.
\<close>

theorem one_review_per_user_and_store_witness:
  "Rating_create \<lparr>stores = [cafe], ratings = [review_of 1 7 5]\<rparr> (rate 7 3)
     = (Inl (UniqueConstraintError ''unique_user_store_rating''),
        \<lparr>stores = [cafe], ratings = [review_of 1 7 5]\<rparr>) \<and>
   addReview any_doc no_faults one_review [] (new_review 7 1 3 None None None)
     = ((400, ''You have already reviewed this store''), one_review) \<and>
   one_review_per_pair
     (snd (addReview no_index no_faults one_review [] (new_review 8 1 5 None None None))) \<and>
   one_review_per_pair (fst (run any_doc [0, 1, 0, 1] (one_review, two_submits))) \<and>
   answered (201, ''Review added successfully'')
     (snd (run any_doc [0, 1, 0, 1] (one_review, two_submits))) = 1 \<and>
   answered (400, ''You have already reviewed this store'')
       (snd (run any_doc [0, 1, 0, 1] (one_review, two_submits)))
     + answered (500, ''Server Error'') (snd (run any_doc [0, 1, 0, 1] (one_review, two_submits)))
     = 1 \<and>
   length (pair_rows (fst (run any_doc [0, 1, 0, 1] (one_review, two_submits))) 8 1) = 1"
proof -
  let ?doc = "new_review 7 1 3 None None None"
  let ?first = "new_review 8 1 5 None None None"
  let ?db = "\<lparr>stores = [cafe], ratings = [review_of 1 7 5]\<rparr>"
  have s: "Store_findById one_review (store ?doc) \<noteq> None"
    by code_simp
  have d: "Review_findOne one_review (user ?doc) (store ?doc) \<noteq> None"
    by code_simp
  have u: "one_review_per_pair one_review"
    by code_simp
  have idx: "unique_index any_doc"
    by (simp add: any_doc_def)
  have p: "same_pair_calls 8 1 any_doc two_submits"
    by code_simp
  have n: "not_started two_submits"
    by code_simp
  have e: "two_submits \<noteq> []"
    by (simp add: two_submits_def)
  have l: "length two_submits - 1 = 1"
    by (simp add: two_submits_def)
  have r: "pair_rows one_review 8 1 = []"
    by code_simp
  have fin: "finished (snd (run any_doc [0, 1, 0, 1] (one_review, two_submits)))"
    by code_simp
  have dup: "list_ex (\<lambda>x. user_id x = given_user_id (rate 7 3) \<and>
                         store_id x = given_store_id (rate 7 3)) (ratings ?db)"
    by code_simp
  have valid: "Rating_validate (Rating_build ?db (rate 7 3)) = []"
    by code_simp
  note T = one_review_per_user_and_store [where errors = "[]" and c = one_review and doc = ?doc
      and schema = any_doc and f = no_faults and schedule = "[0, 1, 0, 1]"
      and calls = two_submits and userId = 8 and storeId = 1 and db = ?db and v = "rate 7 3"]
  note N = one_review_per_user_and_store [where c = one_review and doc = ?first
      and schema = no_index and f = no_faults and errors = "[]"]
  from T dup have "Rating_create ?db (rate 7 3) =
      (Inl (case Rating_validate (Rating_build ?db (rate 7 3)) of
              [] \<Rightarrow> UniqueConstraintError ''unique_user_store_rating''
            | msg # _ \<Rightarrow> ValidationError msg), ?db)"
    by blast
  then have 0: "Rating_create ?db (rate 7 3)
      = (Inl (UniqueConstraintError ''unique_user_store_rating''), ?db)"
    by (simp only: valid list.case)
  from T s d have 1: "addReview any_doc no_faults one_review [] ?doc
     = ((400, ''You have already reviewed this store''), one_review)"
    by blast
  from N u have 2: "one_review_per_pair (snd (addReview no_index no_faults one_review [] ?first))"
    by blast
  from T u idx
  have 3: "one_review_per_pair (fst (run any_doc [0, 1, 0, 1] (one_review, two_submits)))"
    by blast
  from T idx p n e r fin
  have "answered (201, ''Review added successfully'')
       (snd (run any_doc [0, 1, 0, 1] (one_review, two_submits))) = 1 \<and>
     answered (400, ''You have already reviewed this store'')
         (snd (run any_doc [0, 1, 0, 1] (one_review, two_submits)))
       + answered (500, ''Server Error'') (snd (run any_doc [0, 1, 0, 1] (one_review, two_submits)))
       = length two_submits - 1 \<and>
     length (pair_rows (fst (run any_doc [0, 1, 0, 1] (one_review, two_submits))) 8 1) = 1"
    by blast
  then have 4: "answered (201, ''Review added successfully'')
       (snd (run any_doc [0, 1, 0, 1] (one_review, two_submits))) = 1 \<and>
     answered (400, ''You have already reviewed this store'')
         (snd (run any_doc [0, 1, 0, 1] (one_review, two_submits)))
       + answered (500, ''Server Error'') (snd (run any_doc [0, 1, 0, 1] (one_review, two_submits)))
       = 1 \<and>
     length (pair_rows (fst (run any_doc [0, 1, 0, 1] (one_review, two_submits))) 8 1) = 1"
    by (simp only: l)
  from 0 1 2 3 4 show ?thesis by blast
qed

end
